theory Spec2Isabelle
  imports Complex_Main "HOL-Library.Multiset"
begin

section \<open>Numbers and errors\<close>

text \<open>
  The notebooks compute on IEEE doubles (numpy \<open>float64\<close> inside the UDF, Spark
  \<open>DoubleType\<close> columns, Python \<open>float\<close> after \<open>collect\<close>). A double is modelled as
  an exact real or one of the three special values, and the operations below are the
  exact ones; the rounding of the results is added for the Predictor, whose range
  depends on it (see \<open>fl\<close>). The sign of zero is not modelled. A SQL NULL is
  \<open>None\<close> of an option type.
\<close>

datatype double = Fin real | PInf | NInf | NaN

datatype error = AssertionError | TypeError | AnalysisException

text \<open>
  Division of two finite doubles as numpy and the JVM perform it: dividing by zero
  raises nothing, it yields NaN (\<open>0/0\<close>) or an infinity.
\<close>

definition np_div :: "real \<Rightarrow> real \<Rightarrow> double" where
  "np_div a b =
     (if b \<noteq> 0 then Fin (a / b)
      else if a = 0 then NaN
      else if 0 < a then PInf else NInf)"

fun dadd :: "double \<Rightarrow> double \<Rightarrow> double" where
  "dadd NaN _ = NaN"
| "dadd _ NaN = NaN"
| "dadd (Fin a) (Fin b) = Fin (a + b)"
| "dadd PInf NInf = NaN"
| "dadd NInf PInf = NaN"
| "dadd PInf _ = PInf"
| "dadd _ PInf = PInf"
| "dadd NInf _ = NInf"
| "dadd _ NInf = NInf"

fun dmul :: "double \<Rightarrow> double \<Rightarrow> double" where
  "dmul NaN _ = NaN"
| "dmul _ NaN = NaN"
| "dmul (Fin a) (Fin b) = Fin (a * b)"
| "dmul (Fin a) PInf = (if a = 0 then NaN else if 0 < a then PInf else NInf)"
| "dmul (Fin a) NInf = (if a = 0 then NaN else if 0 < a then NInf else PInf)"
| "dmul PInf (Fin b) = (if b = 0 then NaN else if 0 < b then PInf else NInf)"
| "dmul NInf (Fin b) = (if b = 0 then NaN else if 0 < b then NInf else PInf)"
| "dmul PInf PInf = PInf"
| "dmul NInf NInf = PInf"
| "dmul PInf NInf = NInf"
| "dmul NInf PInf = NInf"

fun ddiv :: "double \<Rightarrow> double \<Rightarrow> double" where
  "ddiv NaN _ = NaN"
| "ddiv _ NaN = NaN"
| "ddiv (Fin a) (Fin b) = np_div a b"
| "ddiv (Fin a) _ = Fin 0"
| "ddiv PInf (Fin b) = (if 0 \<le> b then PInf else NInf)"
| "ddiv NInf (Fin b) = (if 0 \<le> b then NInf else PInf)"
| "ddiv _ _ = NaN"

text \<open>
  The order Spark SQL sorts doubles by: \<open>-inf < finite < +inf < NaN\<close>, and NaN
  equals NaN.
\<close>

fun spark_le :: "double \<Rightarrow> double \<Rightarrow> bool" where
  "spark_le _ NaN = True"
| "spark_le NaN _ = False"
| "spark_le NInf _ = True"
| "spark_le _ NInf = False"
| "spark_le _ PInf = True"
| "spark_le PInf _ = False"
| "spark_le (Fin a) (Fin b) = (a \<le> b)"

definition spark_less :: "double \<Rightarrow> double \<Rightarrow> bool" where
  "spark_less a b = (spark_le a b \<and> \<not> spark_le b a)"

section \<open>SimilarityEngine: \<open>co_sym\<close> of Part 2\<close>

text \<open>
  \<open>x1.dot(x2)\<close> of \<open>pyspark.ml.linalg\<close> asserts that the two vectors have the same
  dimension; \<open>Vectors.norm(x, 2)\<close> is the Euclidean norm. Both return numpy doubles,
  so the division of \<open>co_sym\<close> is numpy's.
\<close>

definition dot :: "real list \<Rightarrow> real list \<Rightarrow> error + real" where
  "dot x y =
     (if length x = length y then Inr (sum_list (map2 (*) x y))
      else Inl AssertionError)"

definition Vectors_norm2 :: "real list \<Rightarrow> real" where
  "Vectors_norm2 x = sqrt (sum_list (map (\<lambda>v. v * v) x))"

definition co_sym :: "real list \<Rightarrow> real list \<Rightarrow> error + double" where
  "co_sym x y =
     (case dot x y of
        Inl e \<Rightarrow> Inl e
      | Inr d \<Rightarrow> Inr (np_div d (Vectors_norm2 x * Vectors_norm2 y)))"

section \<open>UtilityMatrixBuilder\<close>

text \<open>
  A rating as the notebooks read it from the CSV file once \<open>timestamp\<close> is dropped.
\<close>

record rating_row =
  userId :: int
  movieId :: int
  rating :: real

text \<open>
  \<open>df.groupBy("movieId").pivot("userId").agg({"rating": "first"}).fillna(0)\<close>, then
  \<open>df.sort("movieId")\<close> and the \<open>VectorAssembler\<close> over \<open>df.columns[1:]\<close>. Spark
  collects the distinct pivot values in ascending order and refuses more than
  \<open>spark.sql.pivotMaxValues\<close> of them, which the session sets to 20000. Nothing else
  is checked: an empty input gives no column and no row. The result is the list of
  user columns and the rows \<open>(movieId, features)\<close>; \<open>df_vector\<close> keeps the rows.
\<close>

definition pivotMaxValues :: nat where
  "pivotMaxValues = 20000"

definition pivot_values :: "rating_row list \<Rightarrow> int list" where
  "pivot_values df = sort (remdups (map userId df))"

definition first_rating :: "rating_row list \<Rightarrow> int \<Rightarrow> int \<Rightarrow> real option" where
  "first_rating df m u = map_option rating (find (\<lambda>r. movieId r = m \<and> userId r = u) df)"

definition fillna :: "real \<Rightarrow> real option \<Rightarrow> real" where
  "fillna d v = (case v of None \<Rightarrow> d | Some x \<Rightarrow> x)"

definition pivot :: "rating_row list \<Rightarrow> error + int list \<times> (int \<times> real list) list" where
  "pivot df =
     (if pivotMaxValues < length (pivot_values df) then Inl AnalysisException
      else Inr (pivot_values df,
                map (\<lambda>m. (m, map (\<lambda>u. fillna 0 (first_rating df m u)) (pivot_values df)))
                    (sort (remdups (map movieId df)))))"

definition df_vector :: "rating_row list \<Rightarrow> error + (int \<times> real list) list" where
  "df_vector df = (case pivot df of Inl e \<Rightarrow> Inl e | Inr (columns, rows) \<Rightarrow> Inr rows)"

section \<open>SimilarityEngine: the similarity matrix\<close>

record sim_row =
  s_movieId :: int
  s_movieId_1 :: int
  s_similarity :: double

text \<open>
  \<open>df_vector.alias("a").crossJoin(df_vector.alias("b")).where("a.movieId != b.movieId")\<close>
  and the UDF on every remaining pair; a UDF that raises fails the job.
\<close>

definition cross_join :: "(int \<times> real list) list \<Rightarrow> ((int \<times> real list) \<times> (int \<times> real list)) list" where
  "cross_join dv = [(a, b). a \<leftarrow> dv, b \<leftarrow> dv, fst a \<noteq> fst b]"

fun dot_udf :: "((int \<times> real list) \<times> (int \<times> real list)) list \<Rightarrow> error + sim_row list" where
  "dot_udf [] = Inr []"
| "dot_udf ((a, b) # ps) =
     (case co_sym (snd a) (snd b) of
        Inl e \<Rightarrow> Inl e
      | Inr s \<Rightarrow>
          (case dot_udf ps of
             Inl e \<Rightarrow> Inl e
           | Inr rs \<Rightarrow> Inr (\<lparr>s_movieId = fst a, s_movieId_1 = fst b, s_similarity = s\<rparr> # rs)))"

definition similarity_matrix :: "(int \<times> real list) list \<Rightarrow> error + sim_row list" where
  "similarity_matrix dv = dot_udf (cross_join dv)"

text \<open>
  \<open>df_user_movie_rating\<close>: the training ratings left-joined with the similarity
  matrix on \<open>movieId\<close>. The two columns the matrix contributes (\<open>movieId_1\<close>,
  \<open>similarity\<close>) are NULL together when a rating has no match.
\<close>

record umr_row =
  umr_userId :: int
  umr_movieId :: int
  umr_rating :: real
  umr_sim :: "(int \<times> double) option"

definition left_join :: "rating_row \<Rightarrow> sim_row list \<Rightarrow> umr_row list" where
  "left_join r sm =
     (case filter (\<lambda>s. s_movieId s = movieId r) sm of
        [] \<Rightarrow> [\<lparr>umr_userId = userId r, umr_movieId = movieId r, umr_rating = rating r,
                umr_sim = None\<rparr>]
      | ms \<Rightarrow> map (\<lambda>s. \<lparr>umr_userId = userId r, umr_movieId = movieId r, umr_rating = rating r,
                        umr_sim = Some (s_movieId_1 s, s_similarity s)\<rparr>) ms)"

definition df_user_movie_rating :: "rating_row list \<Rightarrow> sim_row list \<Rightarrow> umr_row list" where
  "df_user_movie_rating df sm = concat (map (\<lambda>r. left_join r sm) df)"

section \<open>NeighborRanker\<close>

text \<open>
  The inner join of the test rows with \<open>df_user_movie_rating\<close> on
  \<open>tst.userId = sm.userId\<close> and \<open>tst.movieId = sm.movieId_1\<close>; a NULL \<open>movieId_1\<close>
  matches nothing.
\<close>

record joined_row =
  tst_userId :: int
  tst_movieId :: int
  tst_rating :: real
  sm_movieId :: int
  sm_rating :: real
  sm_similarity :: double

definition matches :: "rating_row \<Rightarrow> umr_row \<Rightarrow> joined_row list" where
  "matches t s =
     (case umr_sim s of
        None \<Rightarrow> []
      | Some (m1, sim) \<Rightarrow>
          if userId t = umr_userId s \<and> movieId t = m1
          then [\<lparr>tst_userId = userId t, tst_movieId = movieId t, tst_rating = rating t,
                 sm_movieId = umr_movieId s, sm_rating = umr_rating s, sm_similarity = sim\<rparr>]
          else [])"

definition join_test :: "rating_row list \<Rightarrow> umr_row list \<Rightarrow> joined_row list" where
  "join_test test sm = concat (map (\<lambda>t. concat (map (matches t) sm)) test)"

text \<open>
  \<open>Window.partitionBy("tst.userId", "tst.movieId").orderBy(col("sm.similarity").desc())\<close>
  with \<open>row_number()\<close>, then \<open>filter(col("rank") <= nValue)\<close>. Similarity is the only
  sort key, so rows of equal similarity are numbered in the order in which the engine
  delivers the rows of the partition to the sort. The code does not fix that order (the
  rows come out of two joins and a shuffle, and need not follow the order of any input
  table): it is the parameter \<open>arrival\<close>, which stands for a rearrangement of the rows
  of a partition.
\<close>

definition window_key :: "joined_row \<Rightarrow> int \<times> int" where
  "window_key j = (tst_userId j, tst_movieId j)"

fun insert_desc :: "('a \<Rightarrow> double) \<Rightarrow> 'a \<Rightarrow> 'a list \<Rightarrow> 'a list" where
  "insert_desc f x [] = [x]"
| "insert_desc f x (y # ys) =
     (if spark_less (f x) (f y) then y # insert_desc f x ys else x # y # ys)"

definition order_by_desc :: "('a \<Rightarrow> double) \<Rightarrow> 'a list \<Rightarrow> 'a list" where
  "order_by_desc f xs = foldr (insert_desc f) xs []"

definition row_number :: "'a list \<Rightarrow> (nat \<times> 'a) list" where
  "row_number xs = zip [1..<Suc (length xs)] xs"

type_synonym arrival_order = "joined_row list \<Rightarrow> joined_row list"

definition top_n :: "arrival_order \<Rightarrow> int \<Rightarrow> joined_row list \<Rightarrow> (nat \<times> joined_row) list" where
  "top_n arrival nValue part =
     filter (\<lambda>(rank, j). int rank \<le> nValue)
       (row_number (order_by_desc sm_similarity (arrival part)))"

definition window_rank :: "arrival_order \<Rightarrow> int \<Rightarrow> joined_row list \<Rightarrow> (nat \<times> joined_row) list" where
  "window_rank arrival nValue js =
     concat (map (\<lambda>k. top_n arrival nValue (filter (\<lambda>j. window_key j = k) js))
                 (remdups (map window_key js)))"

definition joined_df ::
    "arrival_order \<Rightarrow> int \<Rightarrow> rating_row list \<Rightarrow> umr_row list \<Rightarrow> (nat \<times> joined_row) list" where
  "joined_df arrival nValue test sm = window_rank arrival nValue (join_test test sm)"

text \<open>
  The window of one query \<open>(userId, targetItem)\<close>: the joined rows the ranking
  starts from, and the NeighborSet, the rows of \<open>joined_df\<close> left in that window.
\<close>

definition partition_rows :: "rating_row list \<Rightarrow> umr_row list \<Rightarrow> int \<Rightarrow> int \<Rightarrow> joined_row list" where
  "partition_rows test sm u m = filter (\<lambda>j. window_key j = (u, m)) (join_test test sm)"

definition NeighborSet ::
    "arrival_order \<Rightarrow> int \<Rightarrow> rating_row list \<Rightarrow> umr_row list \<Rightarrow> int \<Rightarrow> int \<Rightarrow> joined_row list" where
  "NeighborSet arrival nValue test sm u m =
     map snd (filter (\<lambda>x. window_key (snd x) = (u, m)) (joined_df arrival nValue test sm))"

text \<open>
  The rated neighbors of a query as the specification words them: the items the
  querying user has rated in the training set that have an entry of the similarity
  matrix towards the target item, each with the row it contributes to the ranking
  for a test row of the query. \<open>query_rows\<close> are those rows for every test row of
  the query \<open>(u, m)\<close>; a test set holds a (user, item) pair once, and then they are
  the rated neighbors themselves. The property of the NeighborRanker compares the
  joins above with this list.
\<close>

definition rated_neighbors ::
    "rating_row list \<Rightarrow> sim_row list \<Rightarrow> int \<Rightarrow> int \<Rightarrow> (rating_row \<times> sim_row) list" where
  "rated_neighbors training sm u m =
     concat (map (\<lambda>r. concat (map (\<lambda>s. if userId r = u \<and> s_movieId s = movieId r \<and>
                                            s_movieId_1 s = m then [(r, s)] else []) sm))
                 training)"

definition neighbor_row :: "rating_row \<Rightarrow> rating_row \<times> sim_row \<Rightarrow> joined_row" where
  "neighbor_row t p =
     \<lparr>tst_userId = userId t, tst_movieId = movieId t, tst_rating = rating t,
      sm_movieId = movieId (fst p), sm_rating = rating (fst p),
      sm_similarity = s_similarity (snd p)\<rparr>"

definition query_rows ::
    "rating_row list \<Rightarrow> rating_row list \<Rightarrow> sim_row list \<Rightarrow> int \<Rightarrow> int \<Rightarrow> joined_row list" where
  "query_rows test training sm u m =
     concat (map (\<lambda>t. map (neighbor_row t) (rated_neighbors training sm u m))
                 (filter (\<lambda>t. userId t = u \<and> movieId t = m) test))"

section \<open>Predictor\<close>

text \<open>
  \<open>weighted_rating = sm.rating * sm.similarity\<close>; then one row for each group of
  \<open>(tst.userId, tst.movieId, tst.rating)\<close> with the two sums, their SQL quotient (NULL
  when the divisor is 0) and \<open>coalesce(predicted_rating, 0.0)\<close>.
\<close>

definition weighted_rating :: "joined_row \<Rightarrow> double" where
  "weighted_rating j = dmul (Fin (sm_rating j)) (sm_similarity j)"

definition dsum :: "double list \<Rightarrow> double" where
  "dsum xs = foldl dadd (Fin 0) xs"

definition spark_sum :: "double list \<Rightarrow> double option" where
  "spark_sum xs = (if xs = [] then None else Some (dsum xs))"

definition spark_divide :: "double option \<Rightarrow> double option \<Rightarrow> double option" where
  "spark_divide a b =
     (case (a, b) of
        (Some x, Some y) \<Rightarrow> if y = Fin 0 then None else Some (ddiv x y)
      | _ \<Rightarrow> None)"

definition coalesce :: "double option \<Rightarrow> double \<Rightarrow> double" where
  "coalesce v d = (case v of None \<Rightarrow> d | Some x \<Rightarrow> x)"

record result_row =
  r_userId :: int
  r_movieId :: int
  r_rating :: real
  predicted_rating :: double

definition group_key :: "joined_row \<Rightarrow> int \<times> int \<times> real" where
  "group_key j = (tst_userId j, tst_movieId j, tst_rating j)"

definition predict :: "joined_row list \<Rightarrow> double" where
  "predict g =
     coalesce (spark_divide (spark_sum (map weighted_rating g))
                            (spark_sum (map sm_similarity g))) (Fin 0)"

definition aggregate :: "joined_row list \<Rightarrow> result_row list" where
  "aggregate ws =
     map (\<lambda>(u, m, r). \<lparr>r_userId = u, r_movieId = m, r_rating = r,
                        predicted_rating = predict (filter (\<lambda>j. group_key j = (u, m, r)) ws)\<rparr>)
         (remdups (map group_key ws))"

definition result_df ::
    "arrival_order \<Rightarrow> int \<Rightarrow> rating_row list \<Rightarrow> umr_row list \<Rightarrow> result_row list" where
  "result_df arrival nValue test sm = aggregate (map snd (joined_df arrival nValue test sm))"

text \<open>The cells of Part 2 from the training and test partitions to \<open>result_df\<close>.\<close>

definition pipeline ::
    "arrival_order \<Rightarrow> int \<Rightarrow> rating_row list \<Rightarrow> rating_row list \<Rightarrow> error + result_row list" where
  "pipeline arrival nValue training test =
     (case df_vector training of
        Inl e \<Rightarrow> Inl e
      | Inr dv \<Rightarrow>
          (case similarity_matrix dv of
             Inl e \<Rightarrow> Inl e
           | Inr sm \<Rightarrow> Inr (result_df arrival nValue test (df_user_movie_rating training sm))))"

section \<open>Predictor: binary64 arithmetic\<close>

text \<open>
  The columns of \<open>result_df\<close> are doubles, and every product, sum and quotient of
  the Predictor is rounded to the nearest binary64 number, ties to the even significand.
  \<open>fl\<close> is that rounding on a real number: the number is scaled by a power of two so
  that it lies between \<open>2^52\<close> and \<open>2^53\<close>, rounded to an integer and scaled back.
  The exponent range is unbounded here: overflow to an infinity and the coarser grid of
  the subnormal numbers are not part of the model.
\<close>

definition round_half_even :: "real \<Rightarrow> int" where
  "round_half_even x =
     (if x - of_int \<lfloor>x\<rfloor> < 1 / 2 then \<lfloor>x\<rfloor>
      else if 1 / 2 < x - of_int \<lfloor>x\<rfloor> then \<lfloor>x\<rfloor> + 1
      else if even \<lfloor>x\<rfloor> then \<lfloor>x\<rfloor> else \<lfloor>x\<rfloor> + 1)"

definition pow2 :: "int \<Rightarrow> real" where
  "pow2 k = (if 0 \<le> k then 2 ^ nat k else 1 / 2 ^ nat (- k))"

text \<open>
  The binary exponent of a non-zero number \<open>x\<close>, the integer \<open>e\<close> with
  \<open>2^e \<le> |x| < 2^(e+1)\<close>: the number of halvings that bring \<open>|x| \<ge> 1\<close> below 2,
  or minus the number of doublings that bring \<open>|x| < 1\<close> up to 1.
\<close>

function exp_up :: "real \<Rightarrow> int" where
  "exp_up x = (if x < 2 then 0 else exp_up (x / 2) + 1)"
  by pat_completeness auto
termination
  by (relation "measure (\<lambda>x. nat \<lfloor>x\<rfloor>)") (auto, linarith)

function exp_down :: "real \<Rightarrow> int" where
  "exp_down x = (if x \<le> 0 \<or> 1 \<le> x then 0 else exp_down (2 * x) - 1)"
  by pat_completeness auto
termination
proof (relation "measure (\<lambda>x. nat \<lceil>1 / x\<rceil>)")
  show "wf (measure (\<lambda>x::real. nat \<lceil>1 / x\<rceil>))"
    by simp
next
  fix x :: real
  assume "\<not> (x \<le> 0 \<or> 1 \<le> x)"
  then have x: "0 < x" "x < 1"
    by auto
  define y where "y = 1 / x"
  from x have "1 < y"
    by (simp add: y_def)
  then have two: "2 \<le> \<lceil>y\<rceil>"
    by linarith
  then have "(2::real) \<le> of_int \<lceil>y\<rceil>"
    by (metis of_int_le_iff of_int_numeral)
  moreover have "y \<le> of_int \<lceil>y\<rceil>"
    by (rule le_of_int_ceiling)
  ultimately have "y / 2 \<le> of_int \<lceil>y\<rceil> - 1"
    by linarith
  then have "y / 2 \<le> of_int (\<lceil>y\<rceil> - 1)"
    by (simp only: of_int_diff of_int_1)
  then have "\<lceil>y / 2\<rceil> \<le> \<lceil>y\<rceil> - 1"
    by (simp only: ceiling_le_iff)
  with two have "nat \<lceil>y / 2\<rceil> < nat \<lceil>y\<rceil>"
    by linarith
  moreover have "1 / (2 * x) = y / 2" "1 / x = y"
    by (simp_all add: y_def)
  ultimately show "(2 * x, x) \<in> measure (\<lambda>x. nat \<lceil>1 / x\<rceil>)"
    by (simp only: in_measure)
qed

definition exponent :: "real \<Rightarrow> int" where
  "exponent x = (if 1 \<le> \<bar>x\<bar> then exp_up \<bar>x\<bar> else exp_down \<bar>x\<bar>)"

definition fl :: "real \<Rightarrow> real" where
  "fl x = (if x = 0 then 0
           else of_int (round_half_even (x / pow2 (exponent x - 52))) * pow2 (exponent x - 52))"

declare exp_up.simps [simp del]

declare exp_down.simps [simp del]

text \<open>
  The Predictor with the rounding of each operation: \<open>sm.rating * sm.similarity\<close> is
  rounded, each sum starts at \<open>0.0\<close> and is rounded after every row it adds, in the
  order of the rows of the group, and the quotient is rounded.
\<close>

fun dround :: "double \<Rightarrow> double" where
  "dround (Fin a) = Fin (fl a)"
| "dround d = d"

definition weighted_rating_fl :: "joined_row \<Rightarrow> double" where
  "weighted_rating_fl j = dround (weighted_rating j)"

definition dsum_fl :: "double list \<Rightarrow> double" where
  "dsum_fl xs = foldl (\<lambda>a b. dround (dadd a b)) (Fin 0) xs"

definition spark_sum_fl :: "double list \<Rightarrow> double option" where
  "spark_sum_fl xs = (if xs = [] then None else Some (dsum_fl xs))"

definition spark_divide_fl :: "double option \<Rightarrow> double option \<Rightarrow> double option" where
  "spark_divide_fl a b =
     (case (a, b) of
        (Some x, Some y) \<Rightarrow> if y = Fin 0 then None else Some (dround (ddiv x y))
      | _ \<Rightarrow> None)"

definition predict_fl :: "joined_row list \<Rightarrow> double" where
  "predict_fl g =
     coalesce (spark_divide_fl (spark_sum_fl (map weighted_rating_fl g))
                               (spark_sum_fl (map sm_similarity g))) (Fin 0)"

section \<open>Evaluator\<close>

text \<open>
  Modelled from the spec: the evaluator is \<open>RegressionEvaluator\<close> of
  \<open>pyspark.ml.evaluation\<close>, a library whose code is not part of the notebooks, which
  only call it with \<open>metricName="rmse"\<close>, \<open>labelCol="rating"\<close> and
  \<open>predictionCol="predicted_rating"\<close> on \<open>result_df\<close>. As section 4.5 of the
  specification has it, the reported error is the root of the mean squared error: the
  sum of the squared residuals \<open>label - prediction\<close> over the number of rows, here
  in double arithmetic (an empty table gives \<open>0/0\<close>).
\<close>

fun dneg :: "double \<Rightarrow> double" where
  "dneg (Fin a) = Fin (- a)"
| "dneg PInf = NInf"
| "dneg NInf = PInf"
| "dneg NaN = NaN"

fun dsqrt :: "double \<Rightarrow> double" where
  "dsqrt (Fin a) = (if 0 \<le> a then Fin (sqrt a) else NaN)"
| "dsqrt PInf = PInf"
| "dsqrt NInf = NaN"
| "dsqrt NaN = NaN"

definition residual :: "result_row \<Rightarrow> double" where
  "residual x = dadd (Fin (r_rating x)) (dneg (predicted_rating x))"

definition SSerr :: "result_row list \<Rightarrow> double" where
  "SSerr rows = dsum (map (\<lambda>x. dmul (residual x) (residual x)) rows)"

definition meanSquaredError :: "result_row list \<Rightarrow> double" where
  "meanSquaredError rows = ddiv (SSerr rows) (Fin (real (length rows)))"

definition evaluate :: "result_row list \<Rightarrow> double" where
  "evaluate rows = dsqrt (meanSquaredError rows)"

section \<open>Part 1: \<open>predict_user_rating\<close>\<close>

text \<open>
  The single-query function of the first notebook: filter, sort by similarity
  descending, \<open>limit(2)\<close>, two collected sums over the columns \<open>rating\<close> and
  \<open>similarity\<close> (the cast of the product to \<open>FloatType\<close> only rounds). A sum over
  no row is collected as \<open>None\<close>; \<open>None != 0\<close> holds in Python and
  \<open>None / None\<close> raises \<open>TypeError\<close>.
\<close>

definition candidates :: "int \<Rightarrow> int \<Rightarrow> umr_row list \<Rightarrow> (real \<times> double) list" where
  "candidates user_id movie_id smDF =
     concat (map (\<lambda>s. case umr_sim s of
                         None \<Rightarrow> []
                       | Some (m1, sim) \<Rightarrow>
                           if umr_userId s = user_id \<and> m1 = movie_id
                           then [(umr_rating s, sim)] else []) smDF)"

definition user_ratings :: "int \<Rightarrow> int \<Rightarrow> umr_row list \<Rightarrow> (real \<times> double) list" where
  "user_ratings user_id movie_id smDF =
     take 2 (order_by_desc snd (candidates user_id movie_id smDF))"

definition predict_user_rating :: "int \<Rightarrow> int \<Rightarrow> umr_row list \<Rightarrow> error + double option" where
  "predict_user_rating user_id movie_id smDF =
     (let numerator = spark_sum (map (\<lambda>(r, sim). dmul (Fin r) sim)
                                     (user_ratings user_id movie_id smDF));
          denominator = spark_sum (map snd (user_ratings user_id movie_id smDF))
      in if denominator \<noteq> Some (Fin 0)
         then (case (numerator, denominator) of
                 (Some n, Some d) \<Rightarrow> Inr (Some (ddiv n d))
               | _ \<Rightarrow> Inl TypeError)
         else Inr None)"

section \<open>Part 3: the latent-factor predictor\<close>

text \<open>
  Modelled from the spec: the ALS model of \<open>pyspark.ml.recommendation\<close> is a library
  and its code is not part of the notebooks. As section 4.6 of the specification has
  it, the fitted model returns for \<open>(userId, itemId)\<close> a predicted rating, or a
  sentinel (NaN) when either identifier was absent from training; the predicted rating
  itself is a parameter here. The notebook sets \<open>coldStartStrategy="drop"\<close>, which
  removes the rows whose prediction is the sentinel.
\<close>

definition als_predict :: "(int \<Rightarrow> int \<Rightarrow> real) \<Rightarrow> rating_row list \<Rightarrow> rating_row \<Rightarrow> double" where
  "als_predict factors train_data t =
     (if userId t \<in> set (map userId train_data) \<and> movieId t \<in> set (map movieId train_data)
      then Fin (factors (userId t) (movieId t)) else NaN)"

definition als_transform ::
    "(int \<Rightarrow> int \<Rightarrow> real) \<Rightarrow> rating_row list \<Rightarrow> rating_row list \<Rightarrow> (rating_row \<times> double) list" where
  "als_transform factors train_data test_data =
     filter (\<lambda>(t, p). p \<noteq> NaN) (map (\<lambda>t. (t, als_predict factors train_data t)) test_data)"

section \<open>Properties of \<open>co_sym\<close>\<close>

lemma norm2_zero_iff: "Vectors_norm2 x = 0 \<longleftrightarrow> (\<forall>v \<in> set x. v = 0)"
proof -
  have "sum_list (map (\<lambda>v. v * v) x) = 0 \<longleftrightarrow> (\<forall>w \<in> set (map (\<lambda>v. v * v) x). w = 0)"
    by (rule sum_list_nonneg_eq_0_iff) auto
  then show ?thesis
    by (auto simp: Vectors_norm2_def)
qed

lemma map2_zero_left: "\<forall>v \<in> set x. v = (0::real) \<Longrightarrow> sum_list (map2 (*) x y) = 0"
proof (induction x arbitrary: y)
  case Nil
  then show ?case by simp
next
  case (Cons a x)
  then show ?case by (cases y) auto
qed

lemma map2_zero_right: "\<forall>v \<in> set y. v = (0::real) \<Longrightarrow> sum_list (map2 (*) x y) = 0"
proof (induction y arbitrary: x)
  case Nil
  then show ?case by simp
next
  case (Cons b y)
  then show ?case by (cases x) auto
qed

lemma map2_mult_commute: "map2 (*) x y = map2 (*) y (x :: real list)"
proof (induction x arbitrary: y)
  case Nil
  then show ?case by simp
next
  case (Cons a x)
  then show ?case by (cases y) (auto simp: mult.commute)
qed

lemma co_sym_commute: "co_sym x y = co_sym y x"
proof (cases "length x = length y")
  case True
  then show ?thesis
    by (simp add: co_sym_def dot_def map2_mult_commute [of x y] mult.commute)
next
  case False
  then show ?thesis
    by (auto simp: co_sym_def dot_def)
qed

text \<open>
  C1, as amended. For two rating vectors over the shared user index, \<open>co_sym\<close> raises
  nothing; when both norms are non-zero it returns the dot product over the product of
  the norms, and when either norm is zero the division is evaluated with a zero
  denominator (\<open>0/0\<close>) and the result is NaN, not \<open>0.0\<close>.
\<close>

theorem co_sym_zero_norm:
  assumes "length x = length y"
  shows "co_sym x y =
     Inr (if Vectors_norm2 x = 0 \<or> Vectors_norm2 y = 0 then NaN
          else Fin (sum_list (map2 (*) x y) / (Vectors_norm2 x * Vectors_norm2 y)))"
proof (cases "Vectors_norm2 x = 0 \<or> Vectors_norm2 y = 0")
  case True
  then have "sum_list (map2 (*) x y) = 0"
    using map2_zero_left [of x y] map2_zero_right [of y x] by (auto simp: norm2_zero_iff)
  with True assms show ?thesis
    by (auto simp: co_sym_def dot_def np_div_def)
next
  case False
  with assms show ?thesis
    by (simp add: co_sym_def dot_def np_div_def)
qed

theorem co_sym_zero_norm_witness:
  "length [0, 1 :: real] = length [0, 0 :: real] \<and> co_sym [0, 1] [0, 0] = Inr NaN
   \<and> co_sym [0, 1] [1, 1] = Inr (Fin (1 / sqrt 2))"
  using co_sym_zero_norm [of "[0, 1]" "[0, 0]"] co_sym_zero_norm [of "[0, 1]" "[1, 1]"]
  by (simp add: Vectors_norm2_def)

text \<open>
  C1 as stated fails: an item whose ratings are all zero has norm zero, and its
  similarity to another item is NaN.
\<close>

theorem co_sym_zero_norm_counterexample:
  "Vectors_norm2 [0, 0] = 0 \<and> co_sym [0, 0] [3, 4] \<noteq> Inr (Fin 0)"
  by (simp add: co_sym_def dot_def np_div_def Vectors_norm2_def)

section \<open>Symmetry of the similarity matrix\<close>

lemma dot_udf_rows:
  "dot_udf ps = Inr rs \<Longrightarrow>
   r \<in> set rs \<longleftrightarrow>
     (\<exists>p \<in> set ps. co_sym (snd (fst p)) (snd (snd p)) = Inr (s_similarity r) \<and>
        s_movieId r = fst (fst p) \<and> s_movieId_1 r = fst (snd p))"
proof (induction ps arbitrary: rs)
  case Nil
  then show ?case by simp
next
  case (Cons p ps)
  obtain a b where p: "p = (a, b)" by (cases p)
  from Cons.prems p obtain s rs' where
    s: "co_sym (snd a) (snd b) = Inr s" and rs': "dot_udf ps = Inr rs'" and
    rs: "rs = \<lparr>s_movieId = fst a, s_movieId_1 = fst b, s_similarity = s\<rparr> # rs'"
    by (auto split: sum.splits)
  have "r = \<lparr>s_movieId = fst a, s_movieId_1 = fst b, s_similarity = s\<rparr> \<longleftrightarrow>
        co_sym (snd a) (snd b) = Inr (s_similarity r) \<and> s_movieId r = fst a \<and> s_movieId_1 r = fst b"
    using s by (cases r) auto
  with Cons.IH [OF rs'] rs p show ?case
    by simp
qed

lemma cross_join_iff: "p \<in> set (cross_join dv) \<longleftrightarrow> fst p \<in> set dv \<and> snd p \<in> set dv \<and> fst (fst p) \<noteq> fst (snd p)"
  by (cases p) (auto simp: cross_join_def)

lemma similarity_matrix_rows:
  assumes "similarity_matrix dv = Inr sm"
  shows "r \<in> set sm \<longleftrightarrow>
     (\<exists>a \<in> set dv. \<exists>b \<in> set dv. fst a \<noteq> fst b \<and>
            co_sym (snd a) (snd b) = Inr (s_similarity r) \<and>
            s_movieId r = fst a \<and> s_movieId_1 r = fst b)"
proof -
  have "r \<in> set sm \<longleftrightarrow> (\<exists>p \<in> set (cross_join dv). co_sym (snd (fst p)) (snd (snd p)) = Inr (s_similarity r) \<and>
        s_movieId r = fst (fst p) \<and> s_movieId_1 r = fst (snd p))"
    using assms by (simp add: similarity_matrix_def dot_udf_rows)
  also have "\<dots> \<longleftrightarrow> (\<exists>a \<in> set dv. \<exists>b \<in> set dv. fst a \<noteq> fst b \<and>
            co_sym (snd a) (snd b) = Inr (s_similarity r) \<and>
            s_movieId r = fst a \<and> s_movieId_1 r = fst b)"
    unfolding cross_join_iff Bex_def by (simp only: split_paired_Ex fst_conv snd_conv) blast
  finally show ?thesis .
qed

text \<open>
  C6. The similarity function is symmetric in its two vectors, and a similarity
  matrix that was computed holds, with every entry \<open>(i, j, s)\<close>, the entry
  \<open>(j, i, s)\<close> of the same score.
\<close>

theorem similarity_symmetric:
  "co_sym x y = co_sym y x \<and>
   (similarity_matrix dv = Inr sm \<longrightarrow>
    (\<forall>r \<in> set sm. \<lparr>s_movieId = s_movieId_1 r, s_movieId_1 = s_movieId r,
                    s_similarity = s_similarity r\<rparr> \<in> set sm))"
proof (intro conjI impI ballI)
  show "co_sym x y = co_sym y x" by (rule co_sym_commute)
next
  fix r
  assume sm: "similarity_matrix dv = Inr sm" and r: "r \<in> set sm"
  from r obtain a b where ab: "a \<in> set dv" "b \<in> set dv" "fst a \<noteq> fst b"
      "co_sym (snd a) (snd b) = Inr (s_similarity r)" "s_movieId r = fst a" "s_movieId_1 r = fst b"
    unfolding similarity_matrix_rows [OF sm] by blast
  have "co_sym (snd b) (snd a) = Inr (s_similarity r)"
    using ab(4) by (simp add: co_sym_commute [of "snd b"])
  with ab show "\<lparr>s_movieId = s_movieId_1 r, s_movieId_1 = s_movieId r,
                  s_similarity = s_similarity r\<rparr> \<in> set sm"
    unfolding similarity_matrix_rows [OF sm] by (intro bexI [of _ b] bexI [of _ a]) auto
qed

theorem similarity_symmetric_witness:
  "similarity_matrix [(1, [1, 0]), (2, [1, 0])] =
     Inr [\<lparr>s_movieId = 1, s_movieId_1 = 2, s_similarity = Fin 1\<rparr>,
          \<lparr>s_movieId = 2, s_movieId_1 = 1, s_similarity = Fin 1\<rparr>]
   \<and> \<lparr>s_movieId = 2, s_movieId_1 = 1, s_similarity = Fin 1\<rparr>
       \<in> set [\<lparr>s_movieId = 1, s_movieId_1 = 2, s_similarity = Fin 1\<rparr>,
              \<lparr>s_movieId = 2, s_movieId_1 = 1, s_similarity = Fin 1\<rparr>]"
proof -
  have sm: "similarity_matrix [(1, [1, 0]), (2, [1, 0])] =
     Inr [\<lparr>s_movieId = 1, s_movieId_1 = 2, s_similarity = Fin 1\<rparr>,
          \<lparr>s_movieId = 2, s_movieId_1 = 1, s_similarity = Fin 1\<rparr>]"
    by (simp add: similarity_matrix_def cross_join_def co_sym_def dot_def np_div_def
        Vectors_norm2_def)
  from similarity_symmetric [of "[]" "[]" "[(1, [1, 0]), (2, [1, 0])]"] sm
  show ?thesis by simp
qed

section \<open>Ordering by similarity\<close>

lemma spark_le_refl: "spark_le a a"
  by (cases a) auto

lemma spark_le_total: "spark_le a b \<or> spark_le b a"
  by (cases a; cases b) auto

lemma spark_le_trans: "spark_le a b \<Longrightarrow> spark_le b c \<Longrightarrow> spark_le a c"
  by (cases a; cases b; cases c) auto

lemma spark_le_antisym: "spark_le a b \<Longrightarrow> spark_le b a \<Longrightarrow> a = b"
  by (cases a; cases b) auto

lemma not_spark_less: "\<not> spark_less a b \<longleftrightarrow> spark_le b a"
  using spark_le_total [of a b] by (auto simp: spark_less_def)

lemma mset_insert_desc: "mset (insert_desc f x ys) = add_mset x (mset ys)"
  by (induction ys) auto

lemma mset_order_by_desc: "mset (order_by_desc f xs) = mset xs"
  by (induction xs) (auto simp: order_by_desc_def mset_insert_desc)

lemma set_order_by_desc: "set (order_by_desc f xs) = set xs"
  using mset_order_by_desc [of f xs] by (metis set_mset_mset)

lemma length_order_by_desc: "length (order_by_desc f xs) = length xs"
  using mset_order_by_desc [of f xs] by (metis size_mset)

lemma set_insert_desc: "set (insert_desc f x ys) = insert x (set ys)"
  using mset_insert_desc [of f x ys] by (metis set_mset_mset set_mset_add_mset_insert)

lemma sorted_insert_desc:
  "sorted_wrt (\<lambda>a b. spark_le (f b) (f a)) ys \<Longrightarrow>
   sorted_wrt (\<lambda>a b. spark_le (f b) (f a)) (insert_desc f x ys)"
proof (induction ys)
  case Nil
  then show ?case by simp
next
  case (Cons y ys)
  show ?case
  proof (cases "spark_less (f x) (f y)")
    case True
    then have "spark_le (f x) (f y)" by (simp add: spark_less_def)
    with True Cons show ?thesis
      by (auto simp: set_insert_desc)
  next
    case False
    then have xy: "spark_le (f y) (f x)" by (simp add: not_spark_less)
    have "\<forall>z \<in> set ys. spark_le (f z) (f x)"
      using Cons.prems xy by (auto intro: spark_le_trans)
    with False xy Cons.prems show ?thesis by auto
  qed
qed

lemma sorted_order_by_desc:
  "sorted_wrt (\<lambda>a b. spark_le (f b) (f a)) (order_by_desc f xs)"
proof (induction xs)
  case Nil
  then show ?case by (simp add: order_by_desc_def)
next
  case (Cons x xs)
  then show ?case
    using sorted_insert_desc [of f "order_by_desc f xs" x] by (simp add: order_by_desc_def)
qed

section \<open>Row numbers and the rank filter\<close>

lemma rank_filter:
  "filter (\<lambda>(rank, j). int rank \<le> n) (zip [a..<a + length xs] xs) =
   zip [a..<a + length (take (nat (n + 1 - int a)) xs)] (take (nat (n + 1 - int a)) xs)"
proof (induction xs arbitrary: a)
  case Nil
  then show ?case by simp
next
  case (Cons x xs)
  have upt: "[a..<a + length (x # xs)] = a # [Suc a..<Suc a + length xs]"
    using upt_conv_Cons [of a "a + Suc (length xs)"] by simp
  show ?case
  proof (cases "int a \<le> n")
    case True
    define k where "k = nat (n - int a)"
    from True have k: "nat (n + 1 - int a) = Suc k" "nat (n + 1 - int (Suc a)) = k"
      unfolding k_def by linarith+
    have "[a..<a + length (take (Suc k) (x # xs))] = a # [Suc a..<Suc a + length (take k xs)]"
      using upt_conv_Cons [of a "a + Suc (length (take k xs))"] by simp
    with True k Cons.IH [of "Suc a"] upt show ?thesis
      by simp
  next
    case False
    then have "nat (n + 1 - int a) = 0" "nat (n + 1 - int (Suc a)) = 0"
      by simp_all
    with False Cons.IH [of "Suc a"] upt show ?thesis
      by simp
  qed
qed

lemma top_n_take:
  "top_n arrival nValue part =
   row_number (take (nat nValue) (order_by_desc sm_similarity (arrival part)))"
proof -
  let ?s = "order_by_desc sm_similarity (arrival part)"
  have a: "nat (nValue + 1 - int 1) = nat nValue" by simp
  have "top_n arrival nValue part =
      filter (\<lambda>(rank, j). int rank \<le> nValue) (zip [1..<1 + length ?s] ?s)"
    by (simp add: top_n_def row_number_def del: upt_Suc)
  also have "\<dots> = zip [1..<1 + length (take (nat (nValue + 1 - int 1)) ?s)]
                       (take (nat (nValue + 1 - int 1)) ?s)"
    by (rule rank_filter)
  also have "\<dots> = row_number (take (nat nValue) ?s)"
    unfolding a by (simp add: row_number_def del: upt_Suc)
  finally show ?thesis .
qed

lemma map_snd_row_number: "map snd (row_number xs) = xs"
  unfolding row_number_def by (rule map_snd_zip) (simp del: upt_Suc)

lemma map_snd_top_n:
  "map snd (top_n arrival nValue part) =
   take (nat nValue) (order_by_desc sm_similarity (arrival part))"
  by (simp add: top_n_take map_snd_row_number)

section \<open>Partitions and groups\<close>

lemma filter_concat_keys:
  assumes "distinct ks" and "\<And>k' x. x \<in> set (g k') \<Longrightarrow> key x = k'"
  shows "filter (\<lambda>x. key x = k) (concat (map g ks)) = (if k \<in> set ks then g k else [])"
  using assms(1)
proof (induction ks)
  case Nil
  then show ?case by simp
next
  case (Cons k' ks)
  have same: "filter (\<lambda>x. key x = k') (g k') = g k'"
    using assms(2) by (simp add: filter_id_conv)
  have other: "k \<noteq> k' \<Longrightarrow> filter (\<lambda>x. key x = k) (g k') = []"
    using assms(2) by (auto simp: filter_empty_conv)
  from Cons show ?case
    by (cases "k = k'") (auto simp: same other)
qed

lemma arrival_set:
  assumes "\<forall>part. mset (arrival part) = mset part"
  shows "set (arrival part) = set part"
  using assms by (metis set_mset_mset)

lemma arrival_Nil:
  assumes "\<forall>part. mset (arrival part) = mset part"
  shows "arrival [] = []"
  using assms by (metis mset_zero_iff)

lemma window_key_top_n:
  assumes "\<forall>part. mset (arrival part) = mset part"
    and "x \<in> set (top_n arrival nValue (filter (\<lambda>j. window_key j = k) js))"
  shows "window_key (snd x) = k"
proof -
  have "snd x \<in> set (map snd (top_n arrival nValue (filter (\<lambda>j. window_key j = k) js)))"
    using assms(2) by force
  then have "snd x \<in> set (order_by_desc sm_similarity
      (arrival (filter (\<lambda>j. window_key j = k) js)))"
    unfolding map_snd_top_n by (rule in_set_takeD)
  then have "snd x \<in> set (filter (\<lambda>j. window_key j = k) js)"
    by (simp only: set_order_by_desc arrival_set [OF assms(1)])
  then show ?thesis by simp
qed

lemma window_rank_partition:
  assumes "\<forall>part. mset (arrival part) = mset part"
  shows "filter (\<lambda>x. window_key (snd x) = k) (window_rank arrival nValue js) =
     top_n arrival nValue (filter (\<lambda>j. window_key j = k) js)"
proof -
  have "filter (\<lambda>x. window_key (snd x) = k) (window_rank arrival nValue js) =
        (if k \<in> set (remdups (map window_key js))
         then top_n arrival nValue (filter (\<lambda>j. window_key j = k) js) else [])"
    unfolding window_rank_def
    by (rule filter_concat_keys) (auto dest: window_key_top_n [OF assms])
  moreover have "k \<notin> set (map window_key js) \<Longrightarrow> filter (\<lambda>j. window_key j = k) js = []"
    by (auto simp: filter_empty_conv)
  moreover have "top_n arrival nValue [] = []"
    by (simp add: top_n_take arrival_Nil [OF assms] order_by_desc_def row_number_def)
  ultimately show ?thesis
    by auto
qed

section \<open>The NeighborSet of a query\<close>

lemma NeighborSet_take:
  assumes "\<forall>part. mset (arrival part) = mset part"
  shows "NeighborSet arrival nValue test sm u m =
     take (nat nValue) (order_by_desc sm_similarity (arrival (partition_rows test sm u m)))"
  by (simp add: NeighborSet_def joined_df_def window_rank_partition [OF assms] map_snd_top_n
      partition_rows_def)

lemma NeighborSet_rows:
  assumes "\<forall>part. mset (arrival part) = mset part"
    and "e \<in> set (NeighborSet arrival nValue test sm u m)"
  shows "e \<in> set (partition_rows test sm u m)"
proof -
  from assms(2) have "e \<in> set (order_by_desc sm_similarity (arrival (partition_rows test sm u m)))"
    unfolding NeighborSet_take [OF assms(1)] by (rule in_set_takeD)
  then show ?thesis
    by (simp only: set_order_by_desc arrival_set [OF assms(1)])
qed

lemma matches_row:
  "j \<in> set (matches t s) \<longleftrightarrow>
   umr_sim s = Some (movieId t, sm_similarity j) \<and> userId t = umr_userId s \<and>
   j = \<lparr>tst_userId = userId t, tst_movieId = movieId t, tst_rating = rating t,
        sm_movieId = umr_movieId s, sm_rating = umr_rating s,
        sm_similarity = sm_similarity j\<rparr>"
  by (auto simp: matches_def split: option.splits)

lemma join_test_row:
  "j \<in> set (join_test test sm) \<longleftrightarrow> (\<exists>t \<in> set test. \<exists>s \<in> set sm. j \<in> set (matches t s))"
  by (auto simp: join_test_def)

lemma left_join_row:
  assumes "s \<in> set (left_join r sm)"
  shows "umr_userId s = userId r \<and> umr_movieId s = movieId r \<and> umr_rating s = rating r \<and>
     (\<forall>m1 sim. umr_sim s = Some (m1, sim) \<longrightarrow>
        (\<exists>e \<in> set sm. s_movieId e = movieId r \<and> s_movieId_1 e = m1 \<and> s_similarity e = sim))"
proof (cases "filter (\<lambda>e. s_movieId e = movieId r) sm")
  case Nil
  with assms show ?thesis by (simp add: left_join_def)
next
  case (Cons e es)
  with assms obtain e' where "e' \<in> set (filter (\<lambda>e. s_movieId e = movieId r) sm)"
    and "s = \<lparr>umr_userId = userId r, umr_movieId = movieId r, umr_rating = rating r,
               umr_sim = Some (s_movieId_1 e', s_similarity e')\<rparr>"
    by (auto simp: left_join_def)
  then show ?thesis by auto
qed

lemma df_user_movie_rating_row:
  "s \<in> set (df_user_movie_rating df sm) \<longleftrightarrow> (\<exists>r \<in> set df. s \<in> set (left_join r sm))"
  by (auto simp: df_user_movie_rating_def)

lemma neighbor_origin:
  assumes "e \<in> set (partition_rows test (df_user_movie_rating training sm) u m)"
  shows "(\<exists>r \<in> set training. userId r = u \<and> movieId r = sm_movieId e \<and> rating r = sm_rating e) \<and>
         (\<exists>s \<in> set sm. s_movieId s = sm_movieId e \<and> s_movieId_1 s = m \<and>
                        s_similarity s = sm_similarity e)"
proof -
  from assms have key: "window_key e = (u, m)"
    and "e \<in> set (join_test test (df_user_movie_rating training sm))"
    by (simp_all add: partition_rows_def)
  then obtain t s where t: "t \<in> set test" and s: "s \<in> set (df_user_movie_rating training sm)"
    and e: "e \<in> set (matches t s)"
    unfolding join_test_row by blast
  from s obtain r where r: "r \<in> set training" and sr: "s \<in> set (left_join r sm)"
    unfolding df_user_movie_rating_row by blast
  from e have e1: "umr_sim s = Some (movieId t, sm_similarity e)" "userId t = umr_userId s"
    and e2: "e = \<lparr>tst_userId = userId t, tst_movieId = movieId t, tst_rating = rating t,
        sm_movieId = umr_movieId s, sm_rating = umr_rating s,
        sm_similarity = sm_similarity e\<rparr>"
    unfolding matches_row by blast+
  have e3: "tst_userId e = userId t" "tst_movieId e = movieId t"
      "sm_movieId e = umr_movieId s" "sm_rating e = umr_rating s"
    by (subst e2, simp)+
  from key e3 have um: "userId t = u" "movieId t = m"
    by (simp_all add: window_key_def)
  from left_join_row [OF sr] e1 obtain x where
    "umr_userId s = userId r" "umr_movieId s = movieId r" "umr_rating s = rating r"
    "x \<in> set sm" "s_movieId x = movieId r" "s_movieId_1 x = movieId t"
    "s_similarity x = sm_similarity e"
    by blast
  with r e1 e3 um show ?thesis
    by (intro conjI bexI [of _ r] bexI [of _ x]) simp_all
qed

subsection \<open>The join loses no neighbor\<close>

lemma concat_map_filter:
  "concat (map f (filter P xs)) = concat (map (\<lambda>x. if P x then f x else []) xs)"
  by (induction xs) auto

lemma matches_left_join:
  "concat (map (matches t) (left_join r sm)) =
   concat (map (\<lambda>s. if userId r = userId t \<and> s_movieId s = movieId r \<and> s_movieId_1 s = movieId t
                     then [neighbor_row t (r, s)] else []) sm)"
proof (cases "filter (\<lambda>s. s_movieId s = movieId r) sm")
  case Nil
  then have "\<forall>s \<in> set sm. s_movieId s \<noteq> movieId r"
    by (simp add: filter_empty_conv)
  then have "concat (map (\<lambda>s. if userId r = userId t \<and> s_movieId s = movieId r \<and>
        s_movieId_1 s = movieId t then [neighbor_row t (r, s)] else []) sm) = []"
    by simp
  with Nil show ?thesis
    by (simp add: left_join_def matches_def)
next
  case (Cons e es)
  let ?mk = "\<lambda>s. \<lparr>umr_userId = userId r, umr_movieId = movieId r, umr_rating = rating r,
                   umr_sim = Some (s_movieId_1 s, s_similarity s)\<rparr>"
  have "left_join r sm = map ?mk (filter (\<lambda>s. s_movieId s = movieId r) sm)"
    using Cons by (simp add: left_join_def)
  then have "concat (map (matches t) (left_join r sm)) =
      concat (map (\<lambda>s. matches t (?mk s)) (filter (\<lambda>s. s_movieId s = movieId r) sm))"
    by (simp add: comp_def)
  also have "\<dots> = concat (map (\<lambda>s. if s_movieId s = movieId r then matches t (?mk s) else []) sm)"
    by (rule concat_map_filter)
  also have "\<dots> = concat (map (\<lambda>s. if userId r = userId t \<and> s_movieId s = movieId r \<and>
        s_movieId_1 s = movieId t then [neighbor_row t (r, s)] else []) sm)"
    by (rule arg_cong [where f = concat], rule map_cong)
      (auto simp: matches_def neighbor_row_def)
  finally show ?thesis .
qed

lemma matches_df_user_movie_rating:
  "concat (map (matches t) (df_user_movie_rating training sm)) =
   map (neighbor_row t) (rated_neighbors training sm (userId t) (movieId t))"
proof -
  have "concat (map (matches t) (df_user_movie_rating training sm)) =
      concat (map (\<lambda>r. concat (map (matches t) (left_join r sm))) training)"
    by (induction training) (simp_all add: df_user_movie_rating_def)
  also have "\<dots> = map (neighbor_row t) (rated_neighbors training sm (userId t) (movieId t))"
    unfolding matches_left_join rated_neighbors_def
    by (induction training) (simp_all add: map_concat comp_def if_distrib [of "map _"] cong: if_cong)
  finally show ?thesis .
qed

lemma window_key_neighbor_row: "window_key (neighbor_row t p) = (userId t, movieId t)"
  by (cases p) (simp add: window_key_def neighbor_row_def)

lemma partition_rows_rated:
  "partition_rows test (df_user_movie_rating training sm) u m = query_rows test training sm u m"
proof -
  let ?rows = "\<lambda>t. map (neighbor_row t) (rated_neighbors training sm (userId t) (movieId t))"
  have "partition_rows test (df_user_movie_rating training sm) u m =
      filter (\<lambda>j. window_key j = (u, m)) (concat (map ?rows test))"
    by (simp add: partition_rows_def join_test_def matches_df_user_movie_rating)
  also have "\<dots> = concat (map (\<lambda>t. if userId t = u \<and> movieId t = m then ?rows t else []) test)"
    by (induction test) (auto simp: filter_id_conv filter_empty_conv window_key_neighbor_row)
  also have "\<dots> = concat (map ?rows (filter (\<lambda>t. userId t = u \<and> movieId t = m) test))"
    by (rule concat_map_filter [symmetric])
  also have "\<dots> = query_rows test training sm u m"
    unfolding query_rows_def by (rule arg_cong [where f = concat], rule map_cong) auto
  finally show ?thesis .
qed

lemma query_rows_single:
  "filter (\<lambda>t'. userId t' = u \<and> movieId t' = m) test = [t] \<Longrightarrow>
   query_rows test training sm u m = map (neighbor_row t) (rated_neighbors training sm u m)"
  by (simp add: query_rows_def)

lemma query_rows_origin:
  assumes "e \<in> set (query_rows test training sm u m)"
  shows "\<exists>t \<in> set test. \<exists>r \<in> set training. \<exists>s \<in> set sm.
           userId t = u \<and> movieId t = m \<and> userId r = u \<and> s_movieId s = movieId r \<and>
           s_movieId_1 s = m \<and> e = neighbor_row t (r, s)"
proof -
  from assms obtain t p where t: "t \<in> set test" "userId t = u" "movieId t = m"
    and p: "p \<in> set (rated_neighbors training sm u m)" and e: "e = neighbor_row t p"
    by (auto simp: query_rows_def)
  from p have "fst p \<in> set training" "snd p \<in> set sm" "userId (fst p) = u"
    "s_movieId (snd p) = movieId (fst p)" "s_movieId_1 (snd p) = m"
    by (auto simp: rated_neighbors_def split: if_splits)
  with t e show ?thesis
    by (metis prod.collapse)
qed

text \<open>
  C3, as amended. For every query \<open>(userId, targetItem)\<close> and every \<open>nValue\<close>, the
  NeighborSet is the first \<open>nValue\<close> of the query's rows (one for each item the user
  rated in training that has an entry of the similarity matrix towards the target
  item) ordered by similarity descending. It has at most \<open>nValue\<close> entries, every
  entry is such a rated neighbor, and when there are no more than \<open>nValue\<close> of them
  all are returned. Only the tie-breaking differs from the claim: entries of equal
  similarity stand in the order in which their rows are delivered to the window, which
  the code does not fix.
\<close>

theorem neighbor_set_top_n:
  assumes "\<forall>part. mset (arrival part) = mset part"
  shows "NeighborSet arrival nValue test (df_user_movie_rating training sm) u m =
           take (nat nValue) (order_by_desc sm_similarity
             (arrival (query_rows test training sm u m)))
       \<and> length (NeighborSet arrival nValue test (df_user_movie_rating training sm) u m)
           \<le> nat nValue
       \<and> (\<forall>e \<in> set (NeighborSet arrival nValue test (df_user_movie_rating training sm) u m).
            \<exists>t \<in> set test. \<exists>r \<in> set training. \<exists>s \<in> set sm.
              userId t = u \<and> movieId t = m \<and> userId r = u \<and> s_movieId s = movieId r \<and>
              s_movieId_1 s = m \<and> e = neighbor_row t (r, s))
       \<and> sorted_wrt (\<lambda>a b. spark_le (sm_similarity b) (sm_similarity a))
            (NeighborSet arrival nValue test (df_user_movie_rating training sm) u m)
       \<and> (length (query_rows test training sm u m) \<le> nat nValue \<longrightarrow>
            mset (NeighborSet arrival nValue test (df_user_movie_rating training sm) u m) =
            mset (query_rows test training sm u m))"
proof -
  let ?rows = "query_rows test training sm u m"
  let ?ns = "NeighborSet arrival nValue test (df_user_movie_rating training sm) u m"
  have ns: "?ns = take (nat nValue) (order_by_desc sm_similarity (arrival ?rows))"
    using NeighborSet_take [OF assms] by (simp add: partition_rows_rated)
  have len: "length ?ns \<le> nat nValue"
    by (simp add: ns)
  have origin: "\<forall>e \<in> set ?ns. \<exists>t \<in> set test. \<exists>r \<in> set training. \<exists>s \<in> set sm.
      userId t = u \<and> movieId t = m \<and> userId r = u \<and> s_movieId s = movieId r \<and>
      s_movieId_1 s = m \<and> e = neighbor_row t (r, s)"
  proof
    fix e assume "e \<in> set ?ns"
    then have "e \<in> set (order_by_desc sm_similarity (arrival ?rows))"
      unfolding ns by (rule in_set_takeD)
    then have "e \<in> set ?rows"
      by (simp only: set_order_by_desc arrival_set [OF assms])
    then show "\<exists>t \<in> set test. \<exists>r \<in> set training. \<exists>s \<in> set sm.
      userId t = u \<and> movieId t = m \<and> userId r = u \<and> s_movieId s = movieId r \<and>
      s_movieId_1 s = m \<and> e = neighbor_row t (r, s)"
      by (rule query_rows_origin)
  qed
  have sorted: "sorted_wrt (\<lambda>a b. spark_le (sm_similarity b) (sm_similarity a)) ?ns"
    unfolding ns by (rule sorted_wrt_take) (rule sorted_order_by_desc)
  have "length (arrival ?rows) = length ?rows"
    using assms by (metis size_mset)
  then have all: "length ?rows \<le> nat nValue \<longrightarrow> mset ?ns = mset ?rows"
    using assms by (simp add: ns length_order_by_desc mset_order_by_desc)
  from ns len origin sorted all show ?thesis
    by blast
qed

theorem neighbor_set_top_n_witness:
  "query_rows
       [\<lparr>userId = 1, movieId = 30, rating = 5\<rparr>, \<lparr>userId = 2, movieId = 30, rating = 3\<rparr>]
       [\<lparr>userId = 1, movieId = 10, rating = 2\<rparr>, \<lparr>userId = 1, movieId = 20, rating = 4\<rparr>,
        \<lparr>userId = 2, movieId = 10, rating = 1\<rparr>]
       [\<lparr>s_movieId = 10, s_movieId_1 = 30, s_similarity = Fin 0\<rparr>,
        \<lparr>s_movieId = 20, s_movieId_1 = 30, s_similarity = Fin 1\<rparr>] 1 30
     = [\<lparr>tst_userId = 1, tst_movieId = 30, tst_rating = 5, sm_movieId = 10, sm_rating = 2,
         sm_similarity = Fin 0\<rparr>,
        \<lparr>tst_userId = 1, tst_movieId = 30, tst_rating = 5, sm_movieId = 20, sm_rating = 4,
         sm_similarity = Fin 1\<rparr>]
   \<and> NeighborSet rev 1 [\<lparr>userId = 1, movieId = 30, rating = 5\<rparr>, \<lparr>userId = 2, movieId = 30, rating = 3\<rparr>]
       (df_user_movie_rating
          [\<lparr>userId = 1, movieId = 10, rating = 2\<rparr>, \<lparr>userId = 1, movieId = 20, rating = 4\<rparr>,
        \<lparr>userId = 2, movieId = 10, rating = 1\<rparr>]
          [\<lparr>s_movieId = 10, s_movieId_1 = 30, s_similarity = Fin 0\<rparr>,
        \<lparr>s_movieId = 20, s_movieId_1 = 30, s_similarity = Fin 1\<rparr>]) 1 30
     = [\<lparr>tst_userId = 1, tst_movieId = 30, tst_rating = 5, sm_movieId = 20, sm_rating = 4,
         sm_similarity = Fin 1\<rparr>]
   \<and> mset (NeighborSet rev 5 [\<lparr>userId = 1, movieId = 30, rating = 5\<rparr>, \<lparr>userId = 2, movieId = 30, rating = 3\<rparr>]
       (df_user_movie_rating
          [\<lparr>userId = 1, movieId = 10, rating = 2\<rparr>, \<lparr>userId = 1, movieId = 20, rating = 4\<rparr>,
        \<lparr>userId = 2, movieId = 10, rating = 1\<rparr>]
          [\<lparr>s_movieId = 10, s_movieId_1 = 30, s_similarity = Fin 0\<rparr>,
        \<lparr>s_movieId = 20, s_movieId_1 = 30, s_similarity = Fin 1\<rparr>]) 1 30)
     = {#\<lparr>tst_userId = 1, tst_movieId = 30, tst_rating = 5, sm_movieId = 10, sm_rating = 2,
          sm_similarity = Fin 0\<rparr>,
        \<lparr>tst_userId = 1, tst_movieId = 30, tst_rating = 5, sm_movieId = 20, sm_rating = 4,
          sm_similarity = Fin 1\<rparr>#}"
proof -
  have rows: "query_rows
       [\<lparr>userId = 1, movieId = 30, rating = 5\<rparr>, \<lparr>userId = 2, movieId = 30, rating = 3\<rparr>]
       [\<lparr>userId = 1, movieId = 10, rating = 2\<rparr>, \<lparr>userId = 1, movieId = 20, rating = 4\<rparr>,
        \<lparr>userId = 2, movieId = 10, rating = 1\<rparr>]
       [\<lparr>s_movieId = 10, s_movieId_1 = 30, s_similarity = Fin 0\<rparr>,
        \<lparr>s_movieId = 20, s_movieId_1 = 30, s_similarity = Fin 1\<rparr>] 1 30
     = [\<lparr>tst_userId = 1, tst_movieId = 30, tst_rating = 5, sm_movieId = 10, sm_rating = 2,
         sm_similarity = Fin 0\<rparr>,
        \<lparr>tst_userId = 1, tst_movieId = 30, tst_rating = 5, sm_movieId = 20, sm_rating = 4,
         sm_similarity = Fin 1\<rparr>]"
    by (simp add: query_rows_def rated_neighbors_def neighbor_row_def)
  have perm: "\<forall>part :: joined_row list. mset (rev part) = mset part"
    by simp
  from neighbor_set_top_n [OF perm, of 1 "[\<lparr>userId = 1, movieId = 30, rating = 5\<rparr>, \<lparr>userId = 2, movieId = 30, rating = 3\<rparr>]"
      "[\<lparr>userId = 1, movieId = 10, rating = 2\<rparr>, \<lparr>userId = 1, movieId = 20, rating = 4\<rparr>,
        \<lparr>userId = 2, movieId = 10, rating = 1\<rparr>]"
      "[\<lparr>s_movieId = 10, s_movieId_1 = 30, s_similarity = Fin 0\<rparr>,
        \<lparr>s_movieId = 20, s_movieId_1 = 30, s_similarity = Fin 1\<rparr>]" 1 30]
    neighbor_set_top_n [OF perm, of 5 "[\<lparr>userId = 1, movieId = 30, rating = 5\<rparr>, \<lparr>userId = 2, movieId = 30, rating = 3\<rparr>]"
      "[\<lparr>userId = 1, movieId = 10, rating = 2\<rparr>, \<lparr>userId = 1, movieId = 20, rating = 4\<rparr>,
        \<lparr>userId = 2, movieId = 10, rating = 1\<rparr>]"
      "[\<lparr>s_movieId = 10, s_movieId_1 = 30, s_similarity = Fin 0\<rparr>,
        \<lparr>s_movieId = 20, s_movieId_1 = 30, s_similarity = Fin 1\<rparr>]" 1 30]
  show ?thesis
    by (simp add: rows order_by_desc_def spark_less_def)
qed

text \<open>
  C3 as stated fails on the tie-breaking: the same table of candidate rows, delivered in
  two row orders, gives two different NeighborSets when the similarities tie at the cut.
\<close>

theorem neighbor_set_tie_counterexample:
  "mset [\<lparr>umr_userId = 1, umr_movieId = 10, umr_rating = 2, umr_sim = Some (30, Fin 1)\<rparr>,
         \<lparr>umr_userId = 1, umr_movieId = 20, umr_rating = 4, umr_sim = Some (30, Fin 1)\<rparr>]
   = mset [\<lparr>umr_userId = 1, umr_movieId = 20, umr_rating = 4, umr_sim = Some (30, Fin 1)\<rparr>,
           \<lparr>umr_userId = 1, umr_movieId = 10, umr_rating = 2, umr_sim = Some (30, Fin 1)\<rparr>]
   \<and> NeighborSet (\<lambda>part. part) 1 [\<lparr>userId = 1, movieId = 30, rating = 5\<rparr>]
        [\<lparr>umr_userId = 1, umr_movieId = 10, umr_rating = 2, umr_sim = Some (30, Fin 1)\<rparr>,
         \<lparr>umr_userId = 1, umr_movieId = 20, umr_rating = 4, umr_sim = Some (30, Fin 1)\<rparr>] 1 30
     \<noteq> NeighborSet (\<lambda>part. part) 1 [\<lparr>userId = 1, movieId = 30, rating = 5\<rparr>]
        [\<lparr>umr_userId = 1, umr_movieId = 20, umr_rating = 4, umr_sim = Some (30, Fin 1)\<rparr>,
         \<lparr>umr_userId = 1, umr_movieId = 10, umr_rating = 2, umr_sim = Some (30, Fin 1)\<rparr>] 1 30"
  by (simp add: NeighborSet_take partition_rows_def join_test_def matches_def window_key_def
      order_by_desc_def spark_less_def)

section \<open>The rows of \<open>result_df\<close>\<close>

lemma aggregate_row:
  "\<lparr>r_userId = u, r_movieId = m, r_rating = r, predicted_rating = p\<rparr> \<in> set (aggregate ws) \<longleftrightarrow>
   filter (\<lambda>j. group_key j = (u, m, r)) ws \<noteq> [] \<and>
   p = predict (filter (\<lambda>j. group_key j = (u, m, r)) ws)"
proof -
  let ?x = "\<lparr>r_userId = u, r_movieId = m, r_rating = r, predicted_rating = p\<rparr>"
  have nonempty: "filter (\<lambda>j. group_key j = (u, m, r)) ws \<noteq> [] \<longleftrightarrow>
      (u, m, r) \<in> set (map group_key ws)"
    by (force simp: filter_empty_conv)
  have "?x \<in> set (aggregate ws) \<longleftrightarrow>
      (\<exists>k \<in> set (map group_key ws). ?x =
         \<lparr>r_userId = fst k, r_movieId = fst (snd k), r_rating = snd (snd k),
          predicted_rating = predict (filter (\<lambda>j. group_key j = k) ws)\<rparr>)"
    unfolding aggregate_def by (simp add: case_prod_unfold image_iff)
  also have "\<dots> \<longleftrightarrow> (u, m, r) \<in> set (map group_key ws) \<and>
      p = predict (filter (\<lambda>j. group_key j = (u, m, r)) ws)"
    by (auto simp: prod_eq_iff)
  finally show ?thesis
    by (simp only: nonempty)
qed

lemma aggregate_keys:
  "map (\<lambda>x. (r_userId x, r_movieId x, r_rating x)) (aggregate ws) = remdups (map group_key ws)"
  by (simp add: aggregate_def case_prod_unfold comp_def)

lemma predict_value:
  "g \<noteq> [] \<Longrightarrow>
   predict g = (if dsum (map sm_similarity g) = Fin 0 then Fin 0
                else ddiv (dsum (map weighted_rating g)) (dsum (map sm_similarity g)))"
  by (simp add: predict_def spark_sum_def spark_divide_def coalesce_def)

lemma group_in_window:
  "filter (\<lambda>j. group_key j = (u, m, r)) (map snd (joined_df arrival nValue test sm)) =
   filter (\<lambda>j. tst_rating j = r) (NeighborSet arrival nValue test sm u m)"
proof -
  have "(\<lambda>j. group_key j = (u, m, r)) = (\<lambda>j. window_key j = (u, m) \<and> tst_rating j = r)"
    by (auto simp: group_key_def window_key_def)
  then show ?thesis
    by (simp add: NeighborSet_def filter_map comp_def conj_commute)
qed

lemma result_df_member:
  "\<lparr>r_userId = u, r_movieId = m, r_rating = r, predicted_rating = p\<rparr>
      \<in> set (result_df arrival nValue test sm) \<longleftrightarrow>
    filter (\<lambda>j. tst_rating j = r) (NeighborSet arrival nValue test sm u m) \<noteq> [] \<and>
    p = (if dsum (map sm_similarity
                   (filter (\<lambda>j. tst_rating j = r) (NeighborSet arrival nValue test sm u m))) = Fin 0
         then Fin 0
         else ddiv (dsum (map weighted_rating
                       (filter (\<lambda>j. tst_rating j = r) (NeighborSet arrival nValue test sm u m))))
                   (dsum (map sm_similarity
                       (filter (\<lambda>j. tst_rating j = r) (NeighborSet arrival nValue test sm u m)))))"
proof -
  let ?g = "filter (\<lambda>j. tst_rating j = r) (NeighborSet arrival nValue test sm u m)"
  have "\<lparr>r_userId = u, r_movieId = m, r_rating = r, predicted_rating = p\<rparr>
      \<in> set (result_df arrival nValue test sm) \<longleftrightarrow> ?g \<noteq> [] \<and> p = predict ?g"
    by (simp add: result_df_def aggregate_row group_in_window)
  moreover have "?g \<noteq> [] \<Longrightarrow> predict ?g =
      (if dsum (map sm_similarity ?g) = Fin 0 then Fin 0
       else ddiv (dsum (map weighted_rating ?g)) (dsum (map sm_similarity ?g)))"
    by (rule predict_value)
  ultimately show ?thesis
    by auto
qed

lemma result_df_keys_distinct:
  "distinct (map (\<lambda>x. (r_userId x, r_movieId x, r_rating x)) (result_df arrival nValue test sm))"
  unfolding result_df_def aggregate_keys by simp

text \<open>
  C2, as amended. \<open>result_df\<close> holds one row for each query row
  \<open>(userId, movieId, rating)\<close> that has at least one neighbor among the ranked rows,
  and no row for a query whose NeighborSet is empty (the inner join drops it; nothing
  is raised). The predicted rating of a row is \<open>0.0\<close> when the sum of the selected
  similarities is exactly \<open>0.0\<close>, and otherwise the sum of
  \<open>similarity * rating\<close> over the sum of the similarities.
\<close>

theorem result_df_rows:
  "(\<lparr>r_userId = u, r_movieId = m, r_rating = r, predicted_rating = p\<rparr>
      \<in> set (result_df arrival nValue test sm) \<longleftrightarrow>
    filter (\<lambda>j. tst_rating j = r) (NeighborSet arrival nValue test sm u m) \<noteq> [] \<and>
    p = (if dsum (map sm_similarity
                   (filter (\<lambda>j. tst_rating j = r) (NeighborSet arrival nValue test sm u m))) = Fin 0
         then Fin 0
         else ddiv (dsum (map weighted_rating
                       (filter (\<lambda>j. tst_rating j = r) (NeighborSet arrival nValue test sm u m))))
                   (dsum (map sm_similarity
                       (filter (\<lambda>j. tst_rating j = r) (NeighborSet arrival nValue test sm u m))))))
   \<and> distinct (map (\<lambda>x. (r_userId x, r_movieId x, r_rating x)) (result_df arrival nValue test sm))"
proof
  show "\<lparr>r_userId = u, r_movieId = m, r_rating = r, predicted_rating = p\<rparr>
      \<in> set (result_df arrival nValue test sm) \<longleftrightarrow>
    filter (\<lambda>j. tst_rating j = r) (NeighborSet arrival nValue test sm u m) \<noteq> [] \<and>
    p = (if dsum (map sm_similarity
                   (filter (\<lambda>j. tst_rating j = r) (NeighborSet arrival nValue test sm u m))) = Fin 0
         then Fin 0
         else ddiv (dsum (map weighted_rating
                       (filter (\<lambda>j. tst_rating j = r) (NeighborSet arrival nValue test sm u m))))
                   (dsum (map sm_similarity
                       (filter (\<lambda>j. tst_rating j = r) (NeighborSet arrival nValue test sm u m)))))"
    by (rule result_df_member)
  show "distinct (map (\<lambda>x. (r_userId x, r_movieId x, r_rating x)) (result_df arrival nValue test sm))"
    by (rule result_df_keys_distinct)
qed

theorem result_df_rows_witness:
  "NeighborSet (\<lambda>part. part) 2 [\<lparr>userId = 1, movieId = 30, rating = 5\<rparr>]
        [\<lparr>umr_userId = 1, umr_movieId = 10, umr_rating = 2, umr_sim = Some (30, Fin 1)\<rparr>,
         \<lparr>umr_userId = 1, umr_movieId = 20, umr_rating = 4, umr_sim = Some (30, Fin 3)\<rparr>] 1 30
   = [\<lparr>tst_userId = 1, tst_movieId = 30, tst_rating = 5, sm_movieId = 20, sm_rating = 4,
        sm_similarity = Fin 3\<rparr>,
      \<lparr>tst_userId = 1, tst_movieId = 30, tst_rating = 5, sm_movieId = 10, sm_rating = 2,
        sm_similarity = Fin 1\<rparr>]
   \<and> \<lparr>r_userId = 1, r_movieId = 30, r_rating = 5, predicted_rating = Fin (7 / 2)\<rparr>
       \<in> set (result_df (\<lambda>part. part) 2 [\<lparr>userId = 1, movieId = 30, rating = 5\<rparr>]
        [\<lparr>umr_userId = 1, umr_movieId = 10, umr_rating = 2, umr_sim = Some (30, Fin 1)\<rparr>,
         \<lparr>umr_userId = 1, umr_movieId = 20, umr_rating = 4, umr_sim = Some (30, Fin 3)\<rparr>])"
proof -
  have ns: "NeighborSet (\<lambda>part. part) 2 [\<lparr>userId = 1, movieId = 30, rating = 5\<rparr>]
        [\<lparr>umr_userId = 1, umr_movieId = 10, umr_rating = 2, umr_sim = Some (30, Fin 1)\<rparr>,
         \<lparr>umr_userId = 1, umr_movieId = 20, umr_rating = 4, umr_sim = Some (30, Fin 3)\<rparr>] 1 30
   = [\<lparr>tst_userId = 1, tst_movieId = 30, tst_rating = 5, sm_movieId = 20, sm_rating = 4,
        sm_similarity = Fin 3\<rparr>,
      \<lparr>tst_userId = 1, tst_movieId = 30, tst_rating = 5, sm_movieId = 10, sm_rating = 2,
        sm_similarity = Fin 1\<rparr>]"
    by (simp add: NeighborSet_take partition_rows_def join_test_def matches_def window_key_def
        order_by_desc_def spark_less_def)
  show ?thesis
    using result_df_rows [of 1 30 5 "Fin (7 / 2)" "\<lambda>part. part" 2 "[\<lparr>userId = 1, movieId = 30, rating = 5\<rparr>]"
        "[\<lparr>umr_userId = 1, umr_movieId = 10, umr_rating = 2, umr_sim = Some (30, Fin 1)\<rparr>,
          \<lparr>umr_userId = 1, umr_movieId = 20, umr_rating = 4, umr_sim = Some (30, Fin 3)\<rparr>]"]
    by (simp add: ns dsum_def weighted_rating_def np_div_def)
qed

text \<open>
  C2 as stated fails for a query with an empty NeighborSet: the test row of a user
  without training ratings is dropped, it does not appear with predicted rating \<open>0.0\<close>.
\<close>

theorem result_df_rows_counterexample:
  "NeighborSet (\<lambda>part. part) 2 [\<lparr>userId = 2, movieId = 10, rating = 3\<rparr>]
     (df_user_movie_rating
        [\<lparr>userId = 1, movieId = 10, rating = 1\<rparr>, \<lparr>userId = 1, movieId = 20, rating = 1\<rparr>]
        [\<lparr>s_movieId = 10, s_movieId_1 = 20, s_similarity = Fin 1\<rparr>,
         \<lparr>s_movieId = 20, s_movieId_1 = 10, s_similarity = Fin 1\<rparr>]) 2 10 = []
   \<and> similarity_matrix [(10, [1]), (20, [1])] =
       Inr [\<lparr>s_movieId = 10, s_movieId_1 = 20, s_similarity = Fin 1\<rparr>,
            \<lparr>s_movieId = 20, s_movieId_1 = 10, s_similarity = Fin 1\<rparr>]
   \<and> df_vector [\<lparr>userId = 1, movieId = 10, rating = 1\<rparr>, \<lparr>userId = 1, movieId = 20, rating = 1\<rparr>]
       = Inr [(10, [1]), (20, [1])]
   \<and> pipeline (\<lambda>part. part) 2
       [\<lparr>userId = 1, movieId = 10, rating = 1\<rparr>, \<lparr>userId = 1, movieId = 20, rating = 1\<rparr>]
       [\<lparr>userId = 2, movieId = 10, rating = 3\<rparr>] = Inr []"
proof -
  have dv: "df_vector [\<lparr>userId = 1, movieId = 10, rating = 1\<rparr>, \<lparr>userId = 1, movieId = 20, rating = 1\<rparr>]
       = Inr [(10, [1]), (20, [1])]"
    by (simp add: df_vector_def pivot_def pivot_values_def pivotMaxValues_def first_rating_def
        fillna_def)
  have sm: "similarity_matrix [(10, [1]), (20, [1])] =
       Inr [\<lparr>s_movieId = 10, s_movieId_1 = 20, s_similarity = Fin 1\<rparr>,
            \<lparr>s_movieId = 20, s_movieId_1 = 10, s_similarity = Fin 1\<rparr>]"
    by (simp add: similarity_matrix_def cross_join_def co_sym_def dot_def np_div_def
        Vectors_norm2_def)
  have jt: "join_test [\<lparr>userId = 2, movieId = 10, rating = 3\<rparr>]
     (df_user_movie_rating
        [\<lparr>userId = 1, movieId = 10, rating = 1\<rparr>, \<lparr>userId = 1, movieId = 20, rating = 1\<rparr>]
        [\<lparr>s_movieId = 10, s_movieId_1 = 20, s_similarity = Fin 1\<rparr>,
         \<lparr>s_movieId = 20, s_movieId_1 = 10, s_similarity = Fin 1\<rparr>]) = []"
    by (simp add: join_test_def matches_def df_user_movie_rating_def left_join_def)
  show ?thesis
    by (simp add: dv sm jt pipeline_def result_df_def joined_df_def window_rank_def
        aggregate_def NeighborSet_def)
qed

section \<open>The single-query function of Part 1\<close>

text \<open>
  C10. When the similarities of the selected top-2 neighbors sum to \<open>0\<close>,
  \<open>predict_user_rating\<close> returns \<open>None\<close> and not the number \<open>0.0\<close>; it returns
  \<open>None\<close> in no other case.
\<close>

theorem predict_user_rating_none:
  "(spark_sum (map snd (user_ratings user_id movie_id smDF)) = Some (Fin 0) \<longrightarrow>
      predict_user_rating user_id movie_id smDF = Inr None \<and>
      predict_user_rating user_id movie_id smDF \<noteq> Inr (Some (Fin 0)))
   \<and> (predict_user_rating user_id movie_id smDF = Inr None \<longrightarrow>
      spark_sum (map snd (user_ratings user_id movie_id smDF)) = Some (Fin 0))"
  by (auto simp: predict_user_rating_def Let_def split: option.splits)

theorem predict_user_rating_none_witness:
  "spark_sum (map snd (user_ratings 5 1
      [\<lparr>umr_userId = 5, umr_movieId = 2, umr_rating = 3, umr_sim = Some (1, Fin (- 1))\<rparr>,
       \<lparr>umr_userId = 5, umr_movieId = 3, umr_rating = 4, umr_sim = Some (1, Fin 1)\<rparr>,
       \<lparr>umr_userId = 6, umr_movieId = 3, umr_rating = 4, umr_sim = Some (1, Fin 1)\<rparr>]))
     = Some (Fin 0)
   \<and> predict_user_rating 5 1
      [\<lparr>umr_userId = 5, umr_movieId = 2, umr_rating = 3, umr_sim = Some (1, Fin (- 1))\<rparr>,
       \<lparr>umr_userId = 5, umr_movieId = 3, umr_rating = 4, umr_sim = Some (1, Fin 1)\<rparr>,
       \<lparr>umr_userId = 6, umr_movieId = 3, umr_rating = 4, umr_sim = Some (1, Fin 1)\<rparr>]
     = Inr None"
proof -
  have "spark_sum (map snd (user_ratings 5 1
      [\<lparr>umr_userId = 5, umr_movieId = 2, umr_rating = 3, umr_sim = Some (1, Fin (- 1))\<rparr>,
       \<lparr>umr_userId = 5, umr_movieId = 3, umr_rating = 4, umr_sim = Some (1, Fin 1)\<rparr>,
       \<lparr>umr_userId = 6, umr_movieId = 3, umr_rating = 4, umr_sim = Some (1, Fin 1)\<rparr>]))
     = Some (Fin 0)"
    by (simp add: user_ratings_def candidates_def order_by_desc_def spark_less_def
        spark_sum_def dsum_def)
  with predict_user_rating_none [of 5 1
      "[\<lparr>umr_userId = 5, umr_movieId = 2, umr_rating = 3, umr_sim = Some (1, Fin (- 1))\<rparr>,
        \<lparr>umr_userId = 5, umr_movieId = 3, umr_rating = 4, umr_sim = Some (1, Fin 1)\<rparr>,
        \<lparr>umr_userId = 6, umr_movieId = 3, umr_rating = 4, umr_sim = Some (1, Fin 1)\<rparr>]"]
  show ?thesis by simp
qed

section \<open>The utility matrix\<close>

lemma pivot_result:
  "pivot df =
     (if pivotMaxValues < card (userId ` set df) then Inl AnalysisException
      else Inr (pivot_values df,
                map (\<lambda>m. (m, map (\<lambda>u. fillna 0 (first_rating df m u)) (pivot_values df)))
                    (sort (remdups (map movieId df)))))"
  by (simp add: pivot_def pivot_values_def length_remdups_card_conv)

lemma pivot_values_set: "set (pivot_values df) = userId ` set df"
  by (simp add: pivot_values_def)

lemma pivot_shape:
  assumes "pivot df = Inr (columns, rows)"
  shows "set columns = userId ` set df \<and> fst ` set rows = movieId ` set df \<and>
         (\<forall>row \<in> set rows. length (snd row) = length columns) \<and> (rows = [] \<longleftrightarrow> df = [])"
proof -
  from assms have c: "columns = pivot_values df"
    and r: "rows = map (\<lambda>m. (m, map (\<lambda>u. fillna 0 (first_rating df m u)) (pivot_values df)))
                    (sort (remdups (map movieId df)))"
    by (auto simp: pivot_result split: if_splits)
  have "fst ` set rows = movieId ` set df"
    unfolding r by (force simp: image_iff)
  moreover have "rows = [] \<longleftrightarrow> set (sort (remdups (map movieId df))) = {}"
    unfolding r by (simp only: map_is_Nil_conv set_empty)
  then have "rows = [] \<longleftrightarrow> df = []"
    by simp
  ultimately show ?thesis
    using c r by (auto simp: pivot_values_set)
qed

text \<open>
  C8, as amended. The UtilityMatrixBuilder raises nothing on an empty training set: it
  returns the empty matrix (no user column, no item row). Its only failure is Spark's
  \<open>AnalysisException\<close> for more than \<open>pivotMaxValues\<close> distinct users; otherwise it
  returns one column for each training user and one row for each training item.
\<close>

theorem pivot_never_data_shape_error:
  "(df = [] \<longrightarrow> pivot df = Inr ([], [])) \<and>
   (\<forall>e. pivot df = Inl e \<longrightarrow> e = AnalysisException \<and> pivotMaxValues < card (userId ` set df)) \<and>
   (\<forall>columns rows. pivot df = Inr (columns, rows) \<longrightarrow>
      set columns = userId ` set df \<and> fst ` set rows = movieId ` set df \<and>
      (\<forall>row \<in> set rows. length (snd row) = length columns) \<and> (rows = [] \<longleftrightarrow> df = []))"
proof (intro conjI allI impI)
  assume "df = []"
  then show "pivot df = Inr ([], [])"
    by (simp add: pivot_def pivot_values_def)
next
  fix e assume "pivot df = Inl e"
  then show "e = AnalysisException" "pivotMaxValues < card (userId ` set df)"
    by (auto simp: pivot_result split: if_splits)
next
  fix columns rows assume p: "pivot df = Inr (columns, rows)"
  from pivot_shape [OF p]
  show "set columns = userId ` set df" "fst ` set rows = movieId ` set df"
    "\<forall>row \<in> set rows. length (snd row) = length columns" "rows = [] \<longleftrightarrow> df = []"
    by blast+
qed

theorem pivot_never_data_shape_error_witness:
  "pivot [] = Inr ([], []) \<and>
   pivot [\<lparr>userId = 7, movieId = 10, rating = 4\<rparr>] = Inr ([7], [(10, [4])]) \<and>
   set [7] = userId ` set [\<lparr>userId = 7, movieId = 10, rating = 4\<rparr>]"
proof -
  have p: "pivot [\<lparr>userId = 7, movieId = 10, rating = 4\<rparr>] = Inr ([7], [(10, [4])])"
    by (simp add: pivot_def pivot_values_def pivotMaxValues_def first_rating_def fillna_def)
  from pivot_never_data_shape_error [of "[]"]
    pivot_never_data_shape_error [of "[\<lparr>userId = 7, movieId = 10, rating = 4\<rparr>]"] p
  show ?thesis by simp
qed

text \<open>
  C8 as stated fails: on the empty training set the builder returns the empty matrix,
  and the cells after it run on without an error.
\<close>

theorem pivot_empty_counterexample:
  "pivot [] = Inr ([], []) \<and> df_vector [] = Inr [] \<and> similarity_matrix [] = Inr [] \<and>
   pipeline (\<lambda>part. part) 2 [] [\<lparr>userId = 1, movieId = 10, rating = 3\<rparr>] = Inr []"
proof -
  have p: "pivot [] = Inr ([], [])"
    by (simp add: pivot_def pivot_values_def)
  then have dv: "df_vector [] = Inr []"
    by (simp add: df_vector_def)
  have sm: "similarity_matrix [] = Inr []"
    by (simp add: similarity_matrix_def cross_join_def)
  show ?thesis
    by (simp add: p dv sm pipeline_def result_df_def joined_df_def window_rank_def
        join_test_def df_user_movie_rating_def aggregate_def)
qed

section \<open>Cold-start rows\<close>

lemma df_vector_ids:
  assumes "df_vector df = Inr dv"
  shows "fst ` set dv = movieId ` set df"
proof -
  from assms obtain columns where "pivot df = Inr (columns, dv)"
    by (auto simp: df_vector_def split: sum.splits)
  from pivot_shape [OF this] show ?thesis by blast
qed

lemma dot_udf_defined:
  "dot_udf ps = Inr rs \<Longrightarrow> (a, b) \<in> set ps \<Longrightarrow> \<exists>s. co_sym (snd a) (snd b) = Inr s"
proof (induction ps arbitrary: rs)
  case Nil
  then show ?case by simp
next
  case (Cons p ps)
  then show ?case
    by (cases p) (auto split: sum.splits)
qed

lemma rating_row_eta: "\<lparr>userId = userId t, movieId = movieId t, rating = rating t\<rparr> = t"
  by (cases t) simp

lemma similarity_matrix_entry:
  assumes sm: "similarity_matrix dv = Inr sm"
    and ab: "a \<in> set dv" "b \<in> set dv" "fst a \<noteq> fst b"
  shows "\<exists>e \<in> set sm. s_movieId e = fst a \<and> s_movieId_1 e = fst b"
proof -
  have "(a, b) \<in> set (cross_join dv)"
    using ab by (simp add: cross_join_iff)
  with sm obtain s where s: "co_sym (snd a) (snd b) = Inr s"
    unfolding similarity_matrix_def by (blast dest: dot_udf_defined)
  have "\<lparr>s_movieId = fst a, s_movieId_1 = fst b, s_similarity = s\<rparr> \<in> set sm"
    unfolding similarity_matrix_rows [OF sm] using ab s by auto
  then show ?thesis by force
qed

lemma similarity_matrix_ids:
  assumes "similarity_matrix dv = Inr sm" and "e \<in> set sm"
  shows "s_movieId e \<in> fst ` set dv \<and> s_movieId_1 e \<in> fst ` set dv"
  using assms(2) unfolding similarity_matrix_rows [OF assms(1)] by auto

lemma left_join_entry:
  assumes "e \<in> set sm" and "s_movieId e = movieId r"
  shows "\<lparr>umr_userId = userId r, umr_movieId = movieId r, umr_rating = rating r,
          umr_sim = Some (s_movieId_1 e, s_similarity e)\<rparr> \<in> set (left_join r sm)"
proof -
  from assms have e: "e \<in> set (filter (\<lambda>s. s_movieId s = movieId r) sm)"
    by simp
  then obtain x xs where "filter (\<lambda>s. s_movieId s = movieId r) sm = x # xs"
    by (cases "filter (\<lambda>s. s_movieId s = movieId r) sm") auto
  with e show ?thesis
    by (force simp: left_join_def)
qed

lemma matches_entry:
  assumes "umr_sim s = Some (movieId t, sim)" and "userId t = umr_userId s"
  shows "\<lparr>tst_userId = userId t, tst_movieId = movieId t, tst_rating = rating t,
          sm_movieId = umr_movieId s, sm_rating = umr_rating s, sm_similarity = sim\<rparr>
         \<in> set (matches t s)"
  using assms by (simp add: matches_def)

lemma join_test_fields:
  assumes "j \<in> set (join_test test sm)"
  shows "\<lparr>userId = tst_userId j, movieId = tst_movieId j, rating = tst_rating j\<rparr> \<in> set test"
proof -
  from assms obtain t s where t: "t \<in> set test" and "j \<in> set (matches t s)"
    unfolding join_test_row by blast
  then have "j = \<lparr>tst_userId = userId t, tst_movieId = movieId t, tst_rating = rating t,
        sm_movieId = umr_movieId s, sm_rating = umr_rating s,
        sm_similarity = sm_similarity j\<rparr>"
    unfolding matches_row by blast
  then have "tst_userId j = userId t" "tst_movieId j = movieId t" "tst_rating j = rating t"
    by (metis joined_row.select_convs(1), metis joined_row.select_convs(2),
        metis joined_row.select_convs(3))
  with t show ?thesis by (simp add: rating_row_eta)
qed

lemma scored_row_origin:
  assumes pl: "pipeline arrival nValue training test = Inr res"
    and perm: "\<forall>part. mset (arrival part) = mset part"
    and x: "\<lparr>r_userId = u, r_movieId = m, r_rating = r, predicted_rating = p\<rparr> \<in> set res"
  shows "\<lparr>userId = u, movieId = m, rating = r\<rparr> \<in> set test \<and>
         u \<in> userId ` set training \<and> m \<in> movieId ` set training"
proof -
  from pl obtain dv sm where dv: "df_vector training = Inr dv"
    and sm: "similarity_matrix dv = Inr sm"
    and res: "res = result_df arrival nValue test (df_user_movie_rating training sm)"
    by (auto simp: pipeline_def split: sum.splits)
  let ?umr = "df_user_movie_rating training sm"
  from x have "filter (\<lambda>j. tst_rating j = r) (NeighborSet arrival nValue test ?umr u m) \<noteq> []"
    unfolding res result_df_member by blast
  then obtain e where e: "e \<in> set (NeighborSet arrival nValue test ?umr u m)" and er: "tst_rating e = r"
    by (auto simp: filter_empty_conv)
  from perm e have part: "e \<in> set (partition_rows test ?umr u m)"
    by (rule NeighborSet_rows)
  then have key: "tst_userId e = u" "tst_movieId e = m"
    and "e \<in> set (join_test test ?umr)"
    by (simp_all add: partition_rows_def window_key_def)
  with er have t: "\<lparr>userId = u, movieId = m, rating = r\<rparr> \<in> set test"
    using join_test_fields [of e test ?umr] by simp
  from neighbor_origin [OF part] obtain r0 s where
    "r0 \<in> set training" "userId r0 = u" "s \<in> set sm" "s_movieId_1 s = m"
    by blast
  moreover from this similarity_matrix_ids [OF sm] have "m \<in> fst ` set dv"
    by blast
  ultimately show ?thesis
    using t df_vector_ids [OF dv] by auto
qed

lemma partition_rows_rating:
  assumes "distinct (map (\<lambda>t. (userId t, movieId t)) test)" and "t \<in> set test"
    and "e \<in> set (partition_rows test sm (userId t) (movieId t))"
  shows "tst_rating e = rating t"
proof -
  from assms(3) have "e \<in> set (join_test test sm)"
    and key: "tst_userId e = userId t" "tst_movieId e = movieId t"
    by (simp_all add: partition_rows_def window_key_def)
  then have t': "\<lparr>userId = userId t, movieId = movieId t, rating = tst_rating e\<rparr> \<in> set test"
    using join_test_fields [of e test sm] by simp
  have "inj_on (\<lambda>t. (userId t, movieId t)) (set test)"
    using assms(1) by (simp add: distinct_map)
  from inj_onD [OF this _ t' assms(2)] have
    "\<lparr>userId = userId t, movieId = movieId t, rating = tst_rating e\<rparr> = t"
    by simp
  then show ?thesis
    by (metis rating_row.select_convs(3))
qed

lemma warm_row_scored:
  assumes pl: "pipeline arrival nValue training test = Inr res" and n: "1 \<le> nValue"
    and perm: "\<forall>part. mset (arrival part) = mset part"
    and dist: "distinct (map (\<lambda>t. (userId t, movieId t)) test)"
    and held_out: "\<forall>t \<in> set test. \<forall>r \<in> set training. userId t = userId r \<longrightarrow> movieId t \<noteq> movieId r"
    and t: "t \<in> set test"
    and u: "userId t \<in> userId ` set training" and m: "movieId t \<in> movieId ` set training"
  shows "\<exists>x \<in> set res. r_userId x = userId t \<and> r_movieId x = movieId t \<and> r_rating x = rating t"
proof -
  from pl obtain dv sm where dv: "df_vector training = Inr dv"
    and sm: "similarity_matrix dv = Inr sm"
    and res: "res = result_df arrival nValue test (df_user_movie_rating training sm)"
    by (auto simp: pipeline_def split: sum.splits)
  let ?umr = "df_user_movie_rating training sm"
  let ?part = "partition_rows test ?umr (userId t) (movieId t)"
  let ?ns = "NeighborSet arrival nValue test ?umr (userId t) (movieId t)"
  from u obtain r0 where r0: "r0 \<in> set training" "userId r0 = userId t"
    by auto
  with held_out t have ne: "movieId r0 \<noteq> movieId t"
    by metis
  from r0 m df_vector_ids [OF dv] obtain a b where
    ab: "a \<in> set dv" "b \<in> set dv" "fst a = movieId r0" "fst b = movieId t"
    by (metis (no_types, lifting) image_iff)
  with ne similarity_matrix_entry [OF sm, of a b] obtain e where
    e: "e \<in> set sm" "s_movieId e = movieId r0" "s_movieId_1 e = movieId t"
    by auto
  let ?s = "\<lparr>umr_userId = userId r0, umr_movieId = movieId r0, umr_rating = rating r0,
          umr_sim = Some (s_movieId_1 e, s_similarity e)\<rparr>"
  have s: "?s \<in> set ?umr"
    unfolding df_user_movie_rating_row using r0(1) left_join_entry [OF e(1,2)] by blast
  let ?j = "\<lparr>tst_userId = userId t, tst_movieId = movieId t, tst_rating = rating t,
          sm_movieId = umr_movieId ?s, sm_rating = umr_rating ?s,
          sm_similarity = s_similarity e\<rparr>"
  have "?j \<in> set (matches t ?s)"
    by (rule matches_entry) (simp_all add: e r0)
  with t s have "?j \<in> set (join_test test ?umr)"
    unfolding join_test_row by blast
  then have "?j \<in> set ?part"
    by (simp add: partition_rows_def window_key_def)
  then have "?j \<in> set (order_by_desc sm_similarity (arrival ?part))"
    by (simp only: set_order_by_desc arrival_set [OF perm])
  then have "order_by_desc sm_similarity (arrival ?part) \<noteq> []"
    by auto
  with n have ns: "?ns \<noteq> []"
    unfolding NeighborSet_take [OF perm]
    by (cases "order_by_desc sm_similarity (arrival ?part)") (auto simp: take_Cons')
  have "\<forall>e \<in> set ?ns. tst_rating e = rating t"
  proof
    fix e assume "e \<in> set ?ns"
    with perm have "e \<in> set ?part" by (rule NeighborSet_rows)
    with dist t show "tst_rating e = rating t" by (rule partition_rows_rating)
  qed
  then have "filter (\<lambda>j. tst_rating j = rating t) ?ns = ?ns"
    by (simp add: filter_id_conv)
  with ns have "filter (\<lambda>j. tst_rating j = rating t) ?ns \<noteq> []"
    by simp
  then obtain p where
    "\<lparr>r_userId = userId t, r_movieId = movieId t, r_rating = rating t, predicted_rating = p\<rparr>
       \<in> set res"
    unfolding res result_df_member by blast
  then show ?thesis
    by force
qed

lemma als_transform_row:
  "(t, p) \<in> set (als_transform factors training test) \<longleftrightarrow>
   t \<in> set test \<and> userId t \<in> userId ` set training \<and> movieId t \<in> movieId ` set training \<and>
   p = Fin (factors (userId t) (movieId t))"
  by (auto simp: als_transform_def als_predict_def split: if_splits)

text \<open>
  C7. A held-out test row whose user or item does not occur in the training set has no
  row in \<open>result_df\<close>, the table the evaluator scores, and none in the output of the
  latent-factor model with \<open>coldStartStrategy="drop"\<close>. When the test set has one
  row for each (user, item) pair and shares no pair with the training set, the two
  predictors are scored over the same set of test rows. Both hold in whichever order
  the rows of a partition are delivered to the window.
\<close>

theorem cold_start_excluded:
  assumes "pipeline arrival nValue training test = Inr res" and "1 \<le> nValue"
    and "\<forall>part. mset (arrival part) = mset part"
  shows "(\<forall>t \<in> set test.
            userId t \<notin> userId ` set training \<or> movieId t \<notin> movieId ` set training \<longrightarrow>
            (\<forall>p. \<lparr>r_userId = userId t, r_movieId = movieId t, r_rating = rating t,
                   predicted_rating = p\<rparr> \<notin> set res) \<and>
            (\<forall>p. (t, p) \<notin> set (als_transform factors training test)))
       \<and> (distinct (map (\<lambda>t. (userId t, movieId t)) test) \<and>
          (\<forall>t \<in> set test. \<forall>r \<in> set training. userId t = userId r \<longrightarrow> movieId t \<noteq> movieId r) \<longrightarrow>
          (\<lambda>x. \<lparr>userId = r_userId x, movieId = r_movieId x, rating = r_rating x\<rparr>) ` set res
            = fst ` set (als_transform factors training test))"
proof (intro conjI ballI impI allI)
  fix t p
  assume "t \<in> set test"
    and cold: "userId t \<notin> userId ` set training \<or> movieId t \<notin> movieId ` set training"
  show "\<lparr>r_userId = userId t, r_movieId = movieId t, r_rating = rating t,
          predicted_rating = p\<rparr> \<notin> set res"
    using scored_row_origin [OF assms(1,3)] cold by blast
  show "(t, p) \<notin> set (als_transform factors training test)"
    using cold by (auto simp: als_transform_row)
next
  assume h: "distinct (map (\<lambda>t. (userId t, movieId t)) test) \<and>
          (\<forall>t \<in> set test. \<forall>r \<in> set training. userId t = userId r \<longrightarrow> movieId t \<noteq> movieId r)"
  let ?row = "\<lambda>x. \<lparr>userId = r_userId x, movieId = r_movieId x, rating = r_rating x\<rparr>"
  show "?row ` set res = fst ` set (als_transform factors training test)"
  proof (intro equalityI subsetI)
    fix t assume "t \<in> ?row ` set res"
    then obtain x where x: "x \<in> set res" and t: "t = ?row x"
      by blast
    have "x = \<lparr>r_userId = r_userId x, r_movieId = r_movieId x, r_rating = r_rating x,
               predicted_rating = predicted_rating x\<rparr>"
      by (cases x) simp
    with x scored_row_origin [OF assms(1,3), of "r_userId x" "r_movieId x" "r_rating x"
        "predicted_rating x"]
    have "?row x \<in> set test" "r_userId x \<in> userId ` set training"
      "r_movieId x \<in> movieId ` set training"
      by auto
    then have "(t, Fin (factors (userId t) (movieId t)))
        \<in> set (als_transform factors training test)"
      unfolding als_transform_row t by simp
    then show "t \<in> fst ` set (als_transform factors training test)"
      by force
  next
    fix t assume "t \<in> fst ` set (als_transform factors training test)"
    then obtain p where "(t, p) \<in> set (als_transform factors training test)"
      by auto
    then have t: "t \<in> set test" "userId t \<in> userId ` set training"
      "movieId t \<in> movieId ` set training"
      by (simp_all add: als_transform_row)
    from warm_row_scored [OF assms(1,2,3) _ _ t] h obtain x where
      "x \<in> set res" "r_userId x = userId t" "r_movieId x = movieId t" "r_rating x = rating t"
      by blast
    then have "x \<in> set res" "?row x = t"
      by (simp_all add: rating_row_eta)
    then show "t \<in> ?row ` set res"
      by blast
  qed
qed

theorem cold_start_excluded_witness:
  "pipeline (\<lambda>part. part) 2
     [\<lparr>userId = 1, movieId = 10, rating = 1\<rparr>, \<lparr>userId = 2, movieId = 20, rating = 1\<rparr>]
     [\<lparr>userId = 1, movieId = 20, rating = 5\<rparr>, \<lparr>userId = 3, movieId = 10, rating = 4\<rparr>]
   = Inr [\<lparr>r_userId = 1, r_movieId = 20, r_rating = 5, predicted_rating = Fin 0\<rparr>]
   \<and> (1::int) \<le> 2
   \<and> fst ` set (als_transform (\<lambda>u m. 3)
        [\<lparr>userId = 1, movieId = 10, rating = 1\<rparr>, \<lparr>userId = 2, movieId = 20, rating = 1\<rparr>]
        [\<lparr>userId = 1, movieId = 20, rating = 5\<rparr>, \<lparr>userId = 3, movieId = 10, rating = 4\<rparr>])
     = {\<lparr>userId = 1, movieId = 20, rating = 5\<rparr>}
   \<and> (\<lparr>userId = 3, movieId = 10, rating = 4\<rparr>, Fin 3) \<notin> set (als_transform (\<lambda>u m. 3)
        [\<lparr>userId = 1, movieId = 10, rating = 1\<rparr>, \<lparr>userId = 2, movieId = 20, rating = 1\<rparr>]
        [\<lparr>userId = 1, movieId = 20, rating = 5\<rparr>, \<lparr>userId = 3, movieId = 10, rating = 4\<rparr>])"
proof -
  let ?training = "[\<lparr>userId = 1, movieId = 10, rating = 1\<rparr>, \<lparr>userId = 2, movieId = 20, rating = 1\<rparr>]"
  let ?test = "[\<lparr>userId = 1, movieId = 20, rating = 5\<rparr>, \<lparr>userId = 3, movieId = 10, rating = 4\<rparr>]"
  have dv: "df_vector ?training = Inr [(10, [1, 0]), (20, [0, 1])]"
    by (simp add: df_vector_def pivot_def pivot_values_def pivotMaxValues_def first_rating_def
        fillna_def)
  have sm: "similarity_matrix [(10, [1, 0]), (20, [0, 1])] =
       Inr [\<lparr>s_movieId = 10, s_movieId_1 = 20, s_similarity = Fin 0\<rparr>,
            \<lparr>s_movieId = 20, s_movieId_1 = 10, s_similarity = Fin 0\<rparr>]"
    by (simp add: similarity_matrix_def cross_join_def co_sym_def dot_def np_div_def
        Vectors_norm2_def)
  have jt: "join_test ?test (df_user_movie_rating ?training
       [\<lparr>s_movieId = 10, s_movieId_1 = 20, s_similarity = Fin 0\<rparr>,
        \<lparr>s_movieId = 20, s_movieId_1 = 10, s_similarity = Fin 0\<rparr>])
     = [\<lparr>tst_userId = 1, tst_movieId = 20, tst_rating = 5, sm_movieId = 10, sm_rating = 1,
         sm_similarity = Fin 0\<rparr>]"
    by (simp add: join_test_def matches_def df_user_movie_rating_def left_join_def)
  have pl: "pipeline (\<lambda>part. part) 2 ?training ?test
     = Inr [\<lparr>r_userId = 1, r_movieId = 20, r_rating = 5, predicted_rating = Fin 0\<rparr>]"
    by (simp add: dv sm jt pipeline_def result_df_def joined_df_def window_rank_def
        window_key_def top_n_take row_number_def order_by_desc_def aggregate_def group_key_def
        predict_def spark_sum_def spark_divide_def coalesce_def dsum_def weighted_rating_def)
  from cold_start_excluded [OF pl, of "\<lambda>u m. 3"] pl
  show ?thesis
    by simp
qed

section \<open>The weighted average in exact arithmetic\<close>

lemma foldl_dadd_Fin: "foldl dadd (Fin a) (map Fin xs) = Fin (a + sum_list xs)"
  by (induction xs arbitrary: a) (auto simp: add.assoc)

lemma dsum_Fin: "dsum (map Fin xs) = Fin (sum_list xs)"
  by (simp add: dsum_def foldl_dadd_Fin)

text \<open>
  With finite non-negative similarities that are not all zero and ratings between 0
  and 5, the weighted average without rounding is the exact quotient of the sums and
  lies between 0 and 5.
\<close>

lemma predict_convex_exact:
  assumes g: "g \<noteq> []"
    and sims: "map sm_similarity g = map Fin ws" and nonneg: "\<forall>w \<in> set ws. 0 \<le> w"
    and pos: "sum_list ws \<noteq> 0"
    and range: "\<forall>j \<in> set g. 0 \<le> sm_rating j \<and> sm_rating j \<le> 5"
  shows "predict g = Fin (sum_list (map2 (*) (map sm_rating g) ws) / sum_list ws) \<and>
         0 \<le> sum_list (map2 (*) (map sm_rating g) ws) / sum_list ws \<and>
         sum_list (map2 (*) (map sm_rating g) ws) / sum_list ws \<le> 5"
proof -
  have len: "length ws = length g"
    using sims by (metis length_map)
  have weighted: "map weighted_rating g = map Fin (map2 (*) (map sm_rating g) ws)"
    using sims len
  proof (induction g arbitrary: ws)
    case Nil
    then show ?case by simp
  next
    case (Cons j g)
    then show ?case
      by (cases ws) (auto simp: weighted_rating_def)
  qed
  have total: "0 < sum_list ws"
    using nonneg pos by (metis sum_list_nonneg order_le_less)
  have bounds: "0 \<le> sum_list (map2 (*) (map sm_rating g) ws) \<and>
      sum_list (map2 (*) (map sm_rating g) ws) \<le> 5 * sum_list ws"
    using len nonneg range
  proof (induction g arbitrary: ws)
    case Nil
    then show ?case by simp
  next
    case (Cons j g)
    then obtain w ws' where ws: "ws = w # ws'" by (cases ws) auto
    with Cons.prems have w: "0 \<le> w" "0 \<le> sm_rating j" "sm_rating j \<le> 5"
      by auto
    then have "0 \<le> sm_rating j * w" "sm_rating j * w \<le> 5 * w"
      by (simp_all add: mult_right_mono)
    moreover have "0 \<le> sum_list (map2 (*) (map sm_rating g) ws') \<and>
        sum_list (map2 (*) (map sm_rating g) ws') \<le> 5 * sum_list ws'"
      using Cons.IH [of ws'] Cons.prems ws by simp
    ultimately show ?case
      using ws by simp
  qed
  have "dsum (map weighted_rating g) = Fin (sum_list (map2 (*) (map sm_rating g) ws))"
    "dsum (map sm_similarity g) = Fin (sum_list ws)"
    unfolding weighted sims by (rule dsum_Fin)+
  then have "predict g = Fin (sum_list (map2 (*) (map sm_rating g) ws) / sum_list ws)"
    using g pos by (simp add: predict_value np_div_def)
  moreover have "0 \<le> sum_list (map2 (*) (map sm_rating g) ws) / sum_list ws"
    using bounds total by simp
  moreover have "sum_list (map2 (*) (map sm_rating g) ws) / sum_list ws \<le> 5"
    using bounds total by (simp add: pos_divide_le_eq)
  ultimately show ?thesis
    by blast
qed

section \<open>The weighted average in binary64 arithmetic\<close>

subsection \<open>The error of one rounding\<close>

lemma pow2_pos: "0 < pow2 k"
  by (simp add: pow2_def)

lemma pow2_powr: "pow2 k = 2 powr of_int k"
  by (simp add: pow2_def powr_real_of_int inverse_eq_divide)

lemma pow2_add: "pow2 (a + b) = pow2 a * pow2 b"
  by (simp add: pow2_powr powr_add)

lemma pow2_succ: "pow2 (k + 1) = 2 * pow2 k"
  using pow2_add [of k 1] by (simp add: pow2_def)

lemma exp_up_bounds: "1 \<le> x \<Longrightarrow> pow2 (exp_up x) \<le> x \<and> x < pow2 (exp_up x + 1)"
proof (induction x rule: exp_up.induct)
  case (1 x)
  show ?case
  proof (cases "x < 2")
    case True
    then have "exp_up x = 0"
      by (simp add: exp_up.simps [of x])
    with True 1 show ?thesis
      by (simp add: pow2_def)
  next
    case False
    then have e: "exp_up x = exp_up (x / 2) + 1"
      by (simp add: exp_up.simps [of x])
    from False have "1 \<le> x / 2"
      by simp
    with 1 False have "pow2 (exp_up (x / 2)) \<le> x / 2 \<and> x / 2 < pow2 (exp_up (x / 2) + 1)"
      by blast
    then show ?thesis
      unfolding e pow2_succ by simp
  qed
qed

lemma exp_down_bounds:
  "0 < x \<Longrightarrow> x < 1 \<Longrightarrow> pow2 (exp_down x) \<le> x \<and> x < pow2 (exp_down x + 1)"
proof (induction x rule: exp_down.induct)
  case (1 x)
  then have e: "exp_down x = exp_down (2 * x) - 1"
    by (simp add: exp_down.simps [of x])
  have s: "pow2 (exp_down (2 * x)) = 2 * pow2 (exp_down (2 * x) - 1)"
    using pow2_succ [of "exp_down (2 * x) - 1"] by simp
  show ?case
  proof (cases "2 * x < 1")
    case True
    with 1 have "pow2 (exp_down (2 * x)) \<le> 2 * x \<and> 2 * x < pow2 (exp_down (2 * x) + 1)"
      by simp
    then show ?thesis
      unfolding e pow2_succ using s by simp
  next
    case False
    then have "exp_down (2 * x) = 0"
      by (simp add: exp_down.simps [of "2 * x"])
    with False 1 show ?thesis
      unfolding e by (simp add: pow2_def)
  qed
qed

lemma exponent_bounds:
  assumes "x \<noteq> 0"
  shows "pow2 (exponent x) \<le> \<bar>x\<bar> \<and> \<bar>x\<bar> < pow2 (exponent x + 1)"
proof (cases "1 \<le> \<bar>x\<bar>")
  case True
  then show ?thesis
    using exp_up_bounds [of "\<bar>x\<bar>"] by (simp add: exponent_def)
next
  case False
  with assms show ?thesis
    using exp_down_bounds [of "\<bar>x\<bar>"] by (simp add: exponent_def)
qed

lemma exponent_floor_log: "x \<noteq> 0 \<Longrightarrow> exponent x = \<lfloor>log 2 \<bar>x\<bar>\<rfloor>"
  using exponent_bounds [of x] floor_log_eq_powr_iff [of "\<bar>x\<bar>" 2 "exponent x"]
  by (simp add: pow2_powr)

lemma round_half_even_error: "\<bar>of_int (round_half_even x) - x\<bar> \<le> 1 / 2"
  unfolding round_half_even_def by (simp; linarith)

lemma round_half_even_ge: "of_int m \<le> x \<Longrightarrow> m \<le> round_half_even x"
proof -
  assume "of_int m \<le> x"
  then have "m \<le> \<lfloor>x\<rfloor>"
    by (simp add: le_floor_iff)
  moreover have "\<lfloor>x\<rfloor> \<le> round_half_even x"
    by (simp add: round_half_even_def)
  ultimately show ?thesis
    by simp
qed

lemma fl_pos_bounds:
  assumes "0 < x"
  shows "0 < fl x \<and> fl x \<le> x * (1 + 1 / 2 ^ 53) \<and> x \<le> fl x * (1 + 1 / 2 ^ 53)"
proof -
  define s where "s = pow2 (exponent x - 52)"
  define n where "n = round_half_even (x / s)"
  have s: "0 < s"
    by (simp add: s_def pow2_pos)
  have fl: "fl x = of_int n * s"
    using assms by (simp add: fl_def n_def s_def)
  have pe: "pow2 (exponent x) = 2 ^ 52 * s"
    unfolding s_def using pow2_add [of 52 "exponent x - 52"] by (simp add: pow2_def)
  from exponent_bounds [of x] assms have lo: "2 ^ 52 * s \<le> x"
    by (simp add: pe)
  then have "of_int (2 ^ 52) \<le> x / s"
    using s by (simp add: pos_le_divide_eq)
  then have "2 ^ 52 \<le> n"
    unfolding n_def by (rule round_half_even_ge)
  then have "(of_int (2 ^ 52) :: real) \<le> of_int n"
    by (simp only: of_int_le_iff)
  then have "2 ^ 52 * s \<le> of_int n * s"
    using s by (simp add: mult_right_mono)
  then have big: "2 ^ 52 * s \<le> fl x"
    by (simp add: fl)
  have "\<bar>of_int n - x / s\<bar> \<le> 1 / 2"
    unfolding n_def by (rule round_half_even_error)
  then have "\<bar>of_int n - x / s\<bar> * s \<le> 1 / 2 * s"
    using s by (simp add: mult_right_mono)
  moreover have "\<bar>of_int n - x / s\<bar> * s = \<bar>fl x - x\<bar>"
  proof -
    have "fl x - x = (of_int n - x / s) * s"
      using s by (simp add: fl field_simps)
    then show ?thesis
      using s by (simp add: abs_mult)
  qed
  ultimately have err: "\<bar>fl x - x\<bar> \<le> s / 2"
    by simp
  have "s / 2 \<le> x / 2 ^ 53" "s / 2 \<le> fl x / 2 ^ 53"
    using lo big by simp_all
  with err have "fl x \<le> x + x / 2 ^ 53" "x \<le> fl x + fl x / 2 ^ 53"
    by linarith+
  moreover have "0 < fl x"
    using big s by (smt (verit) mult_pos_pos zero_less_power)
  ultimately show ?thesis
    by (simp add: algebra_simps)
qed

lemma fl_bounds:
  assumes "0 \<le> x"
  shows "0 \<le> fl x \<and> fl x \<le> x * (1 + 1 / 2 ^ 53) \<and> x \<le> fl x * (1 + 1 / 2 ^ 53)"
proof (cases "x = 0")
  case True
  then show ?thesis
    by (simp add: fl_def)
next
  case False
  with assms fl_pos_bounds [of x] show ?thesis
    by simp
qed

subsection \<open>The error of the sums and of the quotient\<close>

lemma foldl_fl_bounds:
  assumes "0 \<le> a" and "\<forall>x \<in> set xs. 0 \<le> x"
  shows "\<exists>s. foldl (\<lambda>a b. dround (dadd a b)) (Fin a) (map Fin xs) = Fin s \<and> 0 \<le> s \<and>
             s \<le> (a + sum_list xs) * (1 + 1 / 2 ^ 53) ^ length xs \<and>
             a + sum_list xs \<le> s * (1 + 1 / 2 ^ 53) ^ length xs"
  using assms
proof (induction xs arbitrary: a)
  case Nil
  then show ?case by simp
next
  case (Cons x xs)
  define U :: real where "U = 1 + 1 / 2 ^ 53"
  have U: "1 \<le> U"
    by (simp add: U_def)
  then have p: "0 \<le> U ^ length xs"
    by simp
  define a' where "a' = fl (a + x)"
  from Cons.prems have ax: "0 \<le> a + x" and xs: "\<forall>x \<in> set xs. 0 \<le> x"
    by simp_all
  from fl_bounds [OF ax] have a': "0 \<le> a'" "a' \<le> (a + x) * U" "a + x \<le> a' * U"
    by (simp_all add: a'_def U_def)
  from Cons.IH [OF a'(1) xs] obtain s where
    s: "foldl (\<lambda>a b. dround (dadd a b)) (Fin a') (map Fin xs) = Fin s" "0 \<le> s"
      "s \<le> (a' + sum_list xs) * U ^ length xs" "a' + sum_list xs \<le> s * U ^ length xs"
    unfolding U_def by blast
  have "0 \<le> sum_list xs"
    using xs by (simp add: sum_list_nonneg)
  then have S: "sum_list xs \<le> sum_list xs * U"
    using U by (simp add: mult_le_cancel_left1)
  have "a' + sum_list xs \<le> (a + x + sum_list xs) * U"
    using a'(2) S by (simp add: algebra_simps)
  then have "(a' + sum_list xs) * U ^ length xs \<le> (a + x + sum_list xs) * U * U ^ length xs"
    using p by (rule mult_right_mono)
  with s(3) have up: "s \<le> (a + sum_list (x # xs)) * U ^ length (x # xs)"
    by (simp add: ac_simps)
  have "a + x + sum_list xs \<le> (a' + sum_list xs) * U"
    using a'(3) S by (simp add: algebra_simps)
  also have "\<dots> \<le> s * U ^ length xs * U"
    using s(4) U by (simp add: mult_right_mono)
  finally have lo: "a + sum_list (x # xs) \<le> s * U ^ length (x # xs)"
    by (simp add: ac_simps)
  have "foldl (\<lambda>a b. dround (dadd a b)) (Fin a) (map Fin (x # xs)) = Fin s"
    using s(1) by (simp add: a'_def)
  with s(2) up lo show ?case
    unfolding U_def by blast
qed

lemma dsum_fl_bounds:
  assumes "\<forall>x \<in> set xs. 0 \<le> x"
  shows "\<exists>s. dsum_fl (map Fin xs) = Fin s \<and> 0 \<le> s \<and>
             s \<le> sum_list xs * (1 + 1 / 2 ^ 53) ^ length xs \<and>
             sum_list xs \<le> s * (1 + 1 / 2 ^ 53) ^ length xs"
  using foldl_fl_bounds [of 0 xs] assms by (simp add: dsum_fl_def)

lemma weighted_rating_fl_bounds:
  assumes "map sm_similarity g = map Fin ws" and "\<forall>w \<in> set ws. 0 \<le> w"
    and "\<forall>j \<in> set g. 0 \<le> sm_rating j \<and> sm_rating j \<le> 5"
  shows "\<exists>ps. map weighted_rating_fl g = map Fin ps \<and> length ps = length g \<and>
           (\<forall>p \<in> set ps. 0 \<le> p) \<and> sum_list ps \<le> 5 * (1 + 1 / 2 ^ 53) * sum_list ws"
  using assms
proof (induction g arbitrary: ws)
  case Nil
  then show ?case by simp
next
  case (Cons j g)
  then obtain w ws' where ws: "ws = w # ws'"
    by (cases ws) auto
  with Cons.prems have j: "sm_similarity j = Fin w" "0 \<le> w" "0 \<le> sm_rating j" "sm_rating j \<le> 5"
    by auto
  from Cons.IH [of ws'] Cons.prems ws obtain ps where
    ps: "map weighted_rating_fl g = map Fin ps" "length ps = length g" "\<forall>p \<in> set ps. 0 \<le> p"
      "sum_list ps \<le> 5 * (1 + 1 / 2 ^ 53) * sum_list ws'"
    by auto
  have rw: "0 \<le> sm_rating j * w" "sm_rating j * w \<le> 5 * w"
    using j by (simp_all add: mult_right_mono)
  from fl_bounds [OF rw(1)] have f: "0 \<le> fl (sm_rating j * w)"
    "fl (sm_rating j * w) \<le> sm_rating j * w * (1 + 1 / 2 ^ 53)"
    by simp_all
  have "sm_rating j * w * (1 + 1 / 2 ^ 53) \<le> 5 * w * (1 + 1 / 2 ^ 53)"
    using rw(2) by (rule mult_right_mono) simp
  with f(2) have f2: "fl (sm_rating j * w) \<le> 5 * (1 + 1 / 2 ^ 53) * w"
    by (simp add: ac_simps)
  have "map weighted_rating_fl (j # g) = map Fin (fl (sm_rating j * w) # ps)"
    using j(1) ps(1) by (simp add: weighted_rating_fl_def weighted_rating_def)
  moreover have "sum_list (fl (sm_rating j * w) # ps) \<le> 5 * (1 + 1 / 2 ^ 53) * sum_list ws"
    using f2 ps(4) unfolding ws by (simp add: algebra_simps)
  moreover have "length (fl (sm_rating j * w) # ps) = length (j # g)"
    "\<forall>p \<in> set (fl (sm_rating j * w) # ps). 0 \<le> p"
    using ps(2,3) f(1) by simp_all
  ultimately show ?case
    by blast
qed

lemma predict_fl_bounds:
  assumes g: "g \<noteq> []"
    and sims: "map sm_similarity g = map Fin ws" and nonneg: "\<forall>w \<in> set ws. 0 \<le> w"
    and pos: "sum_list ws \<noteq> 0"
    and range: "\<forall>j \<in> set g. 0 \<le> sm_rating j \<and> sm_rating j \<le> 5"
  shows "\<exists>p. predict_fl g = Fin p \<and> 0 \<le> p \<and> p \<le> 5 * (1 + 1 / 2 ^ 53) ^ (2 * length g + 2)"
proof -
  define U :: real where "U = 1 + 1 / 2 ^ 53"
  define n where "n = length g"
  have U: "1 \<le> U" "0 < U"
    by (simp_all add: U_def)
  then have Un: "0 < U ^ n"
    by simp
  have len: "length ws = n"
    using sims unfolding n_def by (metis length_map)
  have total: "0 < sum_list ws"
    using nonneg pos by (metis sum_list_nonneg order_le_less)
  from weighted_rating_fl_bounds [OF sims nonneg range] obtain ps where
    ps: "map weighted_rating_fl g = map Fin ps" "length ps = n" "\<forall>p \<in> set ps. 0 \<le> p"
      "sum_list ps \<le> 5 * U * sum_list ws"
    unfolding U_def n_def by blast
  from dsum_fl_bounds [OF ps(3)] obtain N where
    N: "dsum_fl (map Fin ps) = Fin N" "0 \<le> N" "N \<le> sum_list ps * U ^ n"
    unfolding U_def ps(2) by blast
  from dsum_fl_bounds [OF nonneg] obtain D where
    D: "dsum_fl (map Fin ws) = Fin D" "0 \<le> D" "sum_list ws \<le> D * U ^ n"
    unfolding U_def len by blast
  have Dpos: "0 < D"
  proof (rule ccontr)
    assume "\<not> 0 < D"
    with D(2) have "D = 0" by simp
    with D(3) total show False by simp
  qed
  have "sum_list ps * U ^ n \<le> 5 * U * sum_list ws * U ^ n"
    using ps(4) Un by (simp add: mult_right_mono)
  also have "\<dots> \<le> 5 * U * (D * U ^ n) * U ^ n"
    using D(3) U Un by (simp add: mult_left_mono mult_right_mono)
  finally have "N \<le> 5 * U * (D * U ^ n) * U ^ n"
    using N(3) by simp
  then have "N / D \<le> 5 * U * U ^ n * U ^ n"
    using Dpos by (simp add: pos_divide_le_eq ac_simps)
  moreover have "5 * U * U ^ n * U ^ n = 5 * U ^ (2 * n + 1)"
    by (simp add: power_add mult_2)
  ultimately have q: "N / D \<le> 5 * U ^ (2 * n + 1)"
    by simp
  have q0: "0 \<le> N / D"
    using N(2) Dpos by simp
  from fl_bounds [OF q0] have f: "0 \<le> fl (N / D)" "fl (N / D) \<le> N / D * U"
    by (simp_all add: U_def)
  note f(2)
  also have "N / D * U \<le> 5 * U ^ (2 * n + 1) * U"
    using q by (rule mult_right_mono) (use U in simp)
  also have "5 * U ^ (2 * n + 1) * U = 5 * U ^ (2 * n + 2)"
    by simp
  finally have "fl (N / D) \<le> 5 * U ^ (2 * n + 2)" .
  moreover have "predict_fl g = Fin (fl (N / D))"
  proof -
    from g have "ws \<noteq> []" "ps \<noteq> []"
      using len ps(2) unfolding n_def by auto
    with Dpos N(1) D(1) show ?thesis
      by (simp add: predict_fl_def spark_sum_fl_def spark_divide_fl_def coalesce_def ps(1) sims
          np_div_def)
  qed
  ultimately show ?thesis
    using f(1) unfolding U_def n_def by blast
qed

text \<open>
  C5, as amended. For a non-empty NeighborSet whose similarities are finite,
  non-negative and not all zero and whose ratings lie in \<open>[0, 5]\<close>, the weighted
  average lies in \<open>[0, 5]\<close> in exact arithmetic, and the double the Predictor computes
  is a finite number between \<open>0\<close> and \<open>5 * (1 + 2^-53)^(2n + 2)\<close> for \<open>n\<close>
  neighbors: each of the roundings can raise the value by the factor
  \<open>1 + 2^-53\<close> at most.
\<close>

theorem predict_range:
  assumes "g \<noteq> []"
    and "map sm_similarity g = map Fin ws" and "\<forall>w \<in> set ws. 0 \<le> w"
    and "sum_list ws \<noteq> 0"
    and "\<forall>j \<in> set g. 0 \<le> sm_rating j \<and> sm_rating j \<le> 5"
  shows "(\<exists>q. predict g = Fin q \<and> 0 \<le> q \<and> q \<le> 5)
       \<and> (\<exists>p. predict_fl g = Fin p \<and> 0 \<le> p \<and> p \<le> 5 * (1 + 1 / 2 ^ 53) ^ (2 * length g + 2))"
proof
  from predict_convex_exact [OF assms] show "\<exists>q. predict g = Fin q \<and> 0 \<le> q \<and> q \<le> 5"
    by blast
  from assms show
    "\<exists>p. predict_fl g = Fin p \<and> 0 \<le> p \<and> p \<le> 5 * (1 + 1 / 2 ^ 53) ^ (2 * length g + 2)"
    by (rule predict_fl_bounds)
qed

theorem predict_range_witness:
  "map sm_similarity
     [\<lparr>tst_userId = 1, tst_movieId = 30, tst_rating = 5, sm_movieId = 10, sm_rating = 2,
       sm_similarity = Fin 1\<rparr>,
      \<lparr>tst_userId = 1, tst_movieId = 30, tst_rating = 5, sm_movieId = 20, sm_rating = 4,
       sm_similarity = Fin 3\<rparr>] = [Fin 1, Fin 3]
   \<and> map sm_rating
     [\<lparr>tst_userId = 1, tst_movieId = 30, tst_rating = 5, sm_movieId = 10, sm_rating = 2,
       sm_similarity = Fin 1\<rparr>,
      \<lparr>tst_userId = 1, tst_movieId = 30, tst_rating = 5, sm_movieId = 20, sm_rating = 4,
       sm_similarity = Fin 3\<rparr>] = [2, 4]
   \<and> predict
     [\<lparr>tst_userId = 1, tst_movieId = 30, tst_rating = 5, sm_movieId = 10, sm_rating = 2,
       sm_similarity = Fin 1\<rparr>,
      \<lparr>tst_userId = 1, tst_movieId = 30, tst_rating = 5, sm_movieId = 20, sm_rating = 4,
       sm_similarity = Fin 3\<rparr>] = Fin (7 / 2)
   \<and> (\<exists>p. predict_fl
     [\<lparr>tst_userId = 1, tst_movieId = 30, tst_rating = 5, sm_movieId = 10, sm_rating = 2,
       sm_similarity = Fin 1\<rparr>,
      \<lparr>tst_userId = 1, tst_movieId = 30, tst_rating = 5, sm_movieId = 20, sm_rating = 4,
       sm_similarity = Fin 3\<rparr>] = Fin p \<and> 0 \<le> p \<and> p \<le> 5 * (1 + 1 / 2 ^ 53) ^ 6)"
  using predict_range [of "[\<lparr>tst_userId = 1, tst_movieId = 30, tst_rating = 5, sm_movieId = 10, sm_rating = 2,
       sm_similarity = Fin 1\<rparr>,
      \<lparr>tst_userId = 1, tst_movieId = 30, tst_rating = 5, sm_movieId = 20, sm_rating = 4,
       sm_similarity = Fin 3\<rparr>]" "[1, 3]"]
  by (simp add: predict_def spark_sum_def spark_divide_def coalesce_def dsum_def
      weighted_rating_def np_div_def)

text \<open>
  C5 as stated fails in the arithmetic of the code: two neighbors rated 5, with the
  similarities \<open>1\<close> and \<open>2^-53\<close>. The sum of the weighted ratings,
  \<open>5 + 5 * 2^-53\<close>, is rounded up to \<open>5 + 2^-50\<close>, the sum of the similarities,
  \<open>1 + 2^-53\<close>, is rounded down to \<open>1\<close>, and the predicted rating is
  \<open>5 + 2^-50\<close>, the double printed as \<open>5.000000000000001\<close>, above every
  contributing rating.
\<close>

theorem predict_range_counterexample:
  "map sm_similarity
     [\<lparr>tst_userId = 1, tst_movieId = 30, tst_rating = 5, sm_movieId = 10, sm_rating = 5,
       sm_similarity = Fin 1\<rparr>,
      \<lparr>tst_userId = 1, tst_movieId = 30, tst_rating = 5, sm_movieId = 20, sm_rating = 5,
       sm_similarity = Fin (1 / 2 ^ 53)\<rparr>] = [Fin 1, Fin (1 / 2 ^ 53)]
   \<and> map sm_rating
     [\<lparr>tst_userId = 1, tst_movieId = 30, tst_rating = 5, sm_movieId = 10, sm_rating = 5,
       sm_similarity = Fin 1\<rparr>,
      \<lparr>tst_userId = 1, tst_movieId = 30, tst_rating = 5, sm_movieId = 20, sm_rating = 5,
       sm_similarity = Fin (1 / 2 ^ 53)\<rparr>] = [5, 5]
   \<and> predict_fl
     [\<lparr>tst_userId = 1, tst_movieId = 30, tst_rating = 5, sm_movieId = 10, sm_rating = 5,
       sm_similarity = Fin 1\<rparr>,
      \<lparr>tst_userId = 1, tst_movieId = 30, tst_rating = 5, sm_movieId = 20, sm_rating = 5,
       sm_similarity = Fin (1 / 2 ^ 53)\<rparr>] = Fin (5 + 1 / 2 ^ 50)
   \<and> (5::real) < 5 + 1 / 2 ^ 50"
  by (simp add: predict_fl_def spark_sum_fl_def spark_divide_fl_def coalesce_def dsum_fl_def
      weighted_rating_fl_def weighted_rating_def np_div_def fl_def exponent_def
      exp_up.simps exp_down.simps pow2_def round_half_even_def)

section \<open>The reported error\<close>

lemma SSerr_finite:
  assumes "map predicted_rating rows = map Fin ps"
  shows "SSerr rows = Fin (sum_list (map2 (\<lambda>a p. (a - p)\<^sup>2) (map r_rating rows) ps))"
proof -
  have "map (\<lambda>x. dmul (residual x) (residual x)) rows =
        map Fin (map2 (\<lambda>a p. (a - p)\<^sup>2) (map r_rating rows) ps)"
    using assms
  proof (induction rows arbitrary: ps)
    case Nil
    then show ?case by simp
  next
    case (Cons x rows)
    then show ?case
      by (cases ps) (auto simp: residual_def power2_eq_square)
  qed
  then show ?thesis
    by (simp only: SSerr_def dsum_Fin)
qed

text \<open>
  C9. For every non-empty sequence of result rows with numeric predictions, the
  reported error is the square root of the mean, over all rows, of the squared
  difference between the actual and the predicted rating.
\<close>

theorem evaluate_is_root_mean_square:
  assumes "rows \<noteq> []" and "map predicted_rating rows = map Fin ps"
  shows "evaluate rows =
     Fin (sqrt (sum_list (map2 (\<lambda>a p. (a - p)\<^sup>2) (map r_rating rows) ps) / real (length rows)))"
proof -
  have "0 \<le> sum_list (map2 (\<lambda>a p. (a - p)\<^sup>2) (map r_rating rows) ps)"
    by (rule sum_list_nonneg) auto
  then have "0 \<le> sum_list (map2 (\<lambda>a p. (a - p)\<^sup>2) (map r_rating rows) ps) / real (length rows)"
    by simp
  with assms(1) show ?thesis
    by (simp add: evaluate_def meanSquaredError_def SSerr_finite [OF assms(2)] np_div_def)
qed

theorem evaluate_is_root_mean_square_witness:
  "[\<lparr>r_userId = 1, r_movieId = 10, r_rating = 3, predicted_rating = Fin 2\<rparr>,
    \<lparr>r_userId = 1, r_movieId = 20, r_rating = 4, predicted_rating = Fin 5\<rparr>] \<noteq> []
   \<and> map predicted_rating
       [\<lparr>r_userId = 1, r_movieId = 10, r_rating = 3, predicted_rating = Fin 2\<rparr>,
        \<lparr>r_userId = 1, r_movieId = 20, r_rating = 4, predicted_rating = Fin 5\<rparr>] = map Fin [2, 5]
   \<and> evaluate
       [\<lparr>r_userId = 1, r_movieId = 10, r_rating = 3, predicted_rating = Fin 2\<rparr>,
        \<lparr>r_userId = 1, r_movieId = 20, r_rating = 4, predicted_rating = Fin 5\<rparr>] = Fin 1
   \<and> evaluate
       [\<lparr>r_userId = 1, r_movieId = 10, r_rating = 3, predicted_rating = Fin 2\<rparr>,
        \<lparr>r_userId = 1, r_movieId = 20, r_rating = 4, predicted_rating = Fin 5\<rparr>] \<noteq> Fin (sqrt 2)"
  using evaluate_is_root_mean_square
    [of "[\<lparr>r_userId = 1, r_movieId = 10, r_rating = 3, predicted_rating = Fin 2\<rparr>,
          \<lparr>r_userId = 1, r_movieId = 20, r_rating = 4, predicted_rating = Fin 5\<rparr>]" "[2, 5]"]
  by simp

end
